theory Spec2Isabelle
  imports Complex_Main
begin

section \<open>Numbers, arrays and errors\<close>

text \<open>
  The solver works on dense numpy arrays of floats. The embedding takes the arithmetic
  to be exact: every float is a rational number, a tableau is the list of its rows, and
  the tolerance of the pivot decisions is the rational 1e-10. A numpy array that
  acquires inf or nan entries (a division by zero) has no counterpart here: the run is
  cut at that point with the error \<open>ZeroDivision\<close>.
\<close>

type_synonym tableau = "rat list list"

datatype error = IndexError | ValueError | ZeroDivision | LinAlgError

datatype status = Optimal | Unbounded | Infeasible

definition eps :: rat where
  "eps = 1 / 10000000000"

text \<open>Python indexing of a sequence of length \<open>n\<close>: negative indices count from the end.\<close>

definition py_index :: "nat \<Rightarrow> int \<Rightarrow> nat option" where
  "py_index n i =
     (if 0 \<le> i \<and> i < int n then Some (nat i)
      else if - int n \<le> i \<and> i < 0 then Some (nat (int n + i))
      else None)"

section \<open>The standard-form converter (modules/standard\_form.py)\<close>

text \<open>
  The state of the loop over \<open>enumerate(zip(A, inequalities))\<close>: the rows built so far,
  the objective coefficients and the indices of the equality rows. Every row is extended
  by \<open>len(inequalities)\<close> slack entries; a tag other than \<open><=\<close> and \<open>>=\<close> is an equality.
\<close>

record convert_state =
  A_new :: "rat list list"
  c_new :: "rat list"
  equality_indices :: "nat list"

definition slack_columns :: "nat \<Rightarrow> nat \<Rightarrow> rat \<Rightarrow> rat list" where
  "slack_columns k i v = (replicate k 0)[i := v]"

definition convert_step :: "nat \<Rightarrow> convert_state \<Rightarrow> nat \<times> rat list \<times> string \<Rightarrow> convert_state" where
  "convert_step k st x =
     (case x of (i, row, inequality) \<Rightarrow>
        if inequality = ''<='' then
          st\<lparr>A_new := A_new st @ [row @ slack_columns k i 1],
             c_new := c_new st @ [0]\<rparr>
        else if inequality = ''>='' then
          st\<lparr>A_new := A_new st @ [row @ slack_columns k i (- 1)],
             c_new := c_new st @ [0]\<rparr>
        else
          st\<lparr>A_new := A_new st @ [row @ replicate k 0],
             equality_indices := equality_indices st @ [i]\<rparr>)"

definition cols_to_keep :: "nat \<Rightarrow> nat \<Rightarrow> nat list \<Rightarrow> nat list" where
  "cols_to_keep width lc eqs =
     filter (\<lambda>i. i < lc \<or> i - lc \<notin> set eqs) [0..<width]"

definition convert_to_standard_form ::
  "rat list \<Rightarrow> rat list list \<Rightarrow> rat list \<Rightarrow> string list \<Rightarrow> bool
     \<Rightarrow> rat list \<times> rat list list \<times> rat list" where
  "convert_to_standard_form c A b inequalities maximization =
     (let c1 = (if maximization then map uminus c else c);
          zipped = zip A inequalities;
          st = foldl (convert_step (length inequalities))
                 \<lparr>A_new = [], c_new = c1, equality_indices = []\<rparr>
                 (zip [0..<length zipped] zipped);
          A2 = (if equality_indices st \<noteq> []
                then let keep = cols_to_keep (length (hd (A_new st))) (length c1)
                                  (equality_indices st)
                     in map (\<lambda>row. map (\<lambda>j. row ! j) keep) (A_new st)
                else A_new st)
      in (c_new st, A2, b))"

section \<open>The feasibility analyzer (modules/feasibility\_check.py)\<close>

text \<open>
  A two-dimensional array keeps its column count also when it has no rows. The QR
  factorisation is numpy's, not this program's: it is a parameter \<open>qr\<close> of the model,
  taking the rows of a matrix to the rows of \<open>Q\<close> and of \<open>R\<close>. A Euclidean norm is
  compared with the (non-negative) tolerance through its square.
\<close>

record matrix =
  ncols :: nat
  rows :: "rat list list"

type_synonym qr_factorisation = "matrix \<Rightarrow> rat list list \<times> rat list list"

definition tol_default :: rat where
  "tol_default = 1 / 100000000"

definition dot :: "rat list \<Rightarrow> rat list \<Rightarrow> rat" where
  "dot xs ys = sum_list (map2 (*) xs ys)"

definition norm_less :: "rat list \<Rightarrow> rat \<Rightarrow> bool" where
  "norm_less v tol = (dot v v < tol * tol)"

definition norm_greater :: "rat list \<Rightarrow> rat \<Rightarrow> bool" where
  "norm_greater v tol = (dot v v > tol * tol)"

definition transpose_matrix :: "matrix \<Rightarrow> matrix" where
  "transpose_matrix A =
     \<lparr>ncols = length (rows A),
      rows = map (\<lambda>j. map (\<lambda>r. r ! j) (rows A)) [0..<ncols A]\<rparr>"

definition diag :: "rat list list \<Rightarrow> rat list" where
  "diag R = map (\<lambda>i. R ! i ! i) [0..<min (length R) (length (hd R))]"

definition is_zero_row :: "rat \<Rightarrow> rat list \<Rightarrow> bool" where
  "is_zero_row tol row = list_all (\<lambda>x. \<bar>x\<bar> < tol) row"

definition is_multiple :: "rat \<Rightarrow> rat list \<Rightarrow> rat list \<Rightarrow> bool" where
  "is_multiple tol row_i row_j =
     (case filter (\<lambda>k. \<bar>row_i ! k\<bar> > tol) [0..<length row_i] of
        [] \<Rightarrow> False
      | k # _ \<Rightarrow>
          let ratio = row_j ! k / row_i ! k
          in list_all (\<lambda>d. \<bar>d\<bar> < tol) (map2 (\<lambda>y x. y - ratio * x) row_j row_i))"

definition multiple_rows :: "rat \<Rightarrow> rat list list \<Rightarrow> nat list \<Rightarrow> nat list" where
  "multiple_rows tol A valid =
     concat (map (\<lambda>i.
        if norm_less (A ! (valid ! i)) tol then []
        else concat (map (\<lambda>j.
               if norm_less (A ! (valid ! j)) tol then []
               else if is_multiple tol (A ! (valid ! i)) (A ! (valid ! j))
                    then [valid ! j] else [])
             [i + 1..<length valid]))
       [0..<length valid - 1])"

definition pre_check_matrix :: "matrix \<Rightarrow> rat \<Rightarrow> nat list" where
  "pre_check_matrix A tol =
     (let valid = filter (\<lambda>i. \<not> is_zero_row tol (rows A ! i)) [0..<length (rows A)];
          multiples = multiple_rows tol (rows A) valid
      in filter (\<lambda>i. i \<notin> set multiples) valid)"

definition qr_rank_check :: "qr_factorisation \<Rightarrow> matrix \<Rightarrow> rat \<Rightarrow> nat list" where
  "qr_rank_check qr A tol =
     (case qr (transpose_matrix A) of (Q, R) \<Rightarrow>
        let diag_R = map abs (diag R)
        in filter (\<lambda>i. diag_R ! i > tol) [0..<length diag_R])"

text \<open>
  \<open>Q_r @ Q_r.T @ b\<close> is the product of the square matrix \<open>Q_r Q_r\<^sup>T\<close> with \<open>b\<close>; numpy
  refuses it unless \<open>b\<close> has one entry per row of \<open>Q\<close>.
\<close>

definition check_feasibility :: "qr_factorisation \<Rightarrow> matrix \<Rightarrow> rat list \<Rightarrow> rat \<Rightarrow> error + bool" where
  "check_feasibility qr A b tol =
     (case qr A of (Q, R) \<Rightarrow>
        let r = length (filter (\<lambda>d. \<bar>d\<bar> > tol) (diag R));
            Q_r = map (take r) Q;
            P = map (\<lambda>qi. map (\<lambda>qj. dot qi qj) Q_r) Q_r
        in if length b \<noteq> length Q then Inl ValueError
           else let b_proj = map (\<lambda>p. dot p b) P
                in if norm_greater (map2 (-) b b_proj) tol then Inr False else Inr True)"

text \<open>Indexing an array with a list of row indices; an index past the end is an error.\<close>

definition take_rows :: "'a list \<Rightarrow> nat list \<Rightarrow> error + 'a list" where
  "take_rows xs idx =
     (if list_all (\<lambda>i. i < length xs) idx then Inr (map (\<lambda>i. xs ! i) idx)
      else Inl IndexError)"

definition select_rows :: "matrix \<Rightarrow> rat list \<Rightarrow> nat list \<Rightarrow> error + (matrix \<times> rat list)" where
  "select_rows A b idx =
     (case take_rows (rows A) idx of
        Inl e \<Rightarrow> Inl e
      | Inr rs \<Rightarrow>
          (case take_rows b idx of
             Inl e \<Rightarrow> Inl e
           | Inr bs \<Rightarrow> Inr (A\<lparr>rows := rs\<rparr>, bs)))"

definition check_and_fix_rank ::
  "qr_factorisation \<Rightarrow> rat list \<Rightarrow> matrix \<Rightarrow> rat list \<Rightarrow> rat
     \<Rightarrow> error + (bool \<times> rat list \<times> matrix \<times> rat list)" where
  "check_and_fix_rank qr c A b tol =
     (case check_feasibility qr A b tol of
        Inl e \<Rightarrow> Inl e
      | Inr False \<Rightarrow> Inr (False, c, A, b)
      | Inr True \<Rightarrow>
          let valid_rows = pre_check_matrix A tol
          in (case (if length valid_rows < length (rows A)
                    then select_rows A b valid_rows else Inr (A, b)) of
                Inl e \<Rightarrow> Inl e
              | Inr (A1, b1) \<Rightarrow>
                  if length (rows A1) = 0 then Inr (True, c, A1, b1)
                  else
                    let independent_rows = qr_rank_check qr A1 tol
                    in if length independent_rows < length (rows A1)
                       then (case select_rows A1 b1 independent_rows of
                               Inl e \<Rightarrow> Inl e
                             | Inr (A_full, b_full) \<Rightarrow> Inr (True, c, A_full, b_full))
                       else Inr (True, c, A1, b1)))"

section \<open>The tableau builder (modules/big\_m\_initialization.py)\<close>

text \<open>
  The tableau starts as \<open>np.zeros((m + 1, n + m + 1))\<close> and is filled by slice and element
  assignments; the last column is index \<open>n + m\<close>. Assigning \<open>c\<close> to \<open>tableau[0, :n]\<close>
  needs \<open>n\<close> entries, or one entry that numpy repeats; \<open>b[i]\<close> needs \<open>i < len(b)\<close>.
\<close>

definition constraint_row :: "nat \<Rightarrow> nat \<Rightarrow> rat list \<Rightarrow> rat \<Rightarrow> nat \<Rightarrow> rat list" where
  "constraint_row n m a bi i =
     (let zero = replicate (n + m + 1) 0;
          r1 = (if bi < 0 then map uminus a else a) @ drop n zero;
          r2 = r1[n + i := 1]
      in r2[n + m := (if bi < 0 then - bi else bi)])"

definition objective_step :: "nat \<Rightarrow> rat \<Rightarrow> rat list list \<Rightarrow> rat list \<Rightarrow> rat list \<Rightarrow> nat \<Rightarrow> rat list" where
  "objective_step n M A b obj i =
     (if b ! i < 0
      then map2 (+) (take n obj) (map ((*) M) (A ! i)) @ drop n obj
      else map2 (-) (take n obj) (map ((*) M) (A ! i)) @ drop n obj)"

definition objective_row :: "nat \<Rightarrow> nat \<Rightarrow> rat list \<Rightarrow> rat list list \<Rightarrow> rat list \<Rightarrow> rat \<Rightarrow> rat list" where
  "objective_row n m c A b M =
     (let obj0 = c @ replicate (m + 1) 0;
          obj1 = foldl (objective_step n M A b) obj0 [0..<m];
          obj2 = take n obj1 @ replicate m 0 @ drop (n + m) obj1;
          initial_obj = - sum_list (map (\<lambda>i. M * \<bar>b ! i\<bar>) [0..<m])
      in obj2[n + m := initial_obj])"

definition initialize_tableau :: "rat list \<Rightarrow> matrix \<Rightarrow> rat list \<Rightarrow> rat \<Rightarrow> error + tableau" where
  "initialize_tableau c A b M =
     (let m = length (rows A); n = ncols A
      in if length b < m then Inl IndexError
         else if length c \<noteq> n \<and> length c \<noteq> 1 then Inl ValueError
         else
           let c1 = (if length c = n then c else replicate n (hd c))
           in Inr (objective_row n m c1 (rows A) b M
                   # map (\<lambda>i. constraint_row n m (rows A ! i) (b ! i) i) [0..<m]))"

definition M_default :: rat where
  "M_default = 10000"

section \<open>The simplex solver (modules/simplex.py)\<close>

text \<open>
  The state of the minimum-ratio loop: \<open>min_ratio\<close> and \<open>min_basic_var\<close> start at
  \<open>np.inf\<close>, which is \<open>None\<close> here, and \<open>leave_row\<close> starts at the sentinel -1.
\<close>

record ratio_state =
  min_ratio :: "rat option"
  leave_row :: int
  min_basic_var :: "int option"

definition ratio_init :: ratio_state where
  "ratio_init = \<lparr>min_ratio = None, leave_row = - 1, min_basic_var = None\<rparr>"

text \<open>\<open>ratio < min_ratio - 1e-10\<close>, with \<open>inf - 1e-10 = inf\<close>.\<close>

definition ratio_smaller :: "rat \<Rightarrow> rat option \<Rightarrow> bool" where
  "ratio_smaller r mr = (case mr of None \<Rightarrow> True | Some x \<Rightarrow> r < x - eps)"

text \<open>\<open>abs(ratio - min_ratio) < 1e-10\<close>, with \<open>abs(ratio - inf) = inf\<close>.\<close>

definition ratio_tied :: "rat \<Rightarrow> rat option \<Rightarrow> bool" where
  "ratio_tied r mr = (case mr of None \<Rightarrow> False | Some x \<Rightarrow> \<bar>r - x\<bar> < eps)"

text \<open>\<open>basic_vars[i] < min_basic_var\<close>.\<close>

definition var_smaller :: "int \<Rightarrow> int option \<Rightarrow> bool" where
  "var_smaller v mb = (case mb of None \<Rightarrow> True | Some w \<Rightarrow> v < w)"

text \<open>One pass of the body of \<open>for i in range(len(constraints))\<close>.\<close>

definition ratio_step ::
  "rat list \<Rightarrow> rat list \<Rightarrow> int list \<Rightarrow> ratio_state \<Rightarrow> nat \<Rightarrow> ratio_state" where
  "ratio_step constraints rhs basic_vars st i =
     (if constraints ! i > eps then
        let ratio = rhs ! i / constraints ! i in
        if ratio_smaller ratio (min_ratio st)
           \<or> (ratio_tied ratio (min_ratio st)
               \<and> var_smaller (basic_vars ! i) (min_basic_var st))
        then \<lparr>min_ratio = Some ratio, leave_row = int i + 1,
               min_basic_var = Some (basic_vars ! i)\<rparr>
        else st
      else st)"

definition ratio_loop :: "rat list \<Rightarrow> rat list \<Rightarrow> int list \<Rightarrow> ratio_state" where
  "ratio_loop constraints rhs basic_vars =
     foldl (ratio_step constraints rhs basic_vars) ratio_init [0..<length constraints]"

text \<open>
  The elimination loop \<open>for i in range(tableau.shape[0])\<close>: row \<open>i\<close> is rewritten unless
  \<open>i\<close> is \<open>leave_row\<close> (compared as integers, so the sentinel -1 excludes no row); the
  pivot row is read through Python indexing at position \<open>p\<close> each time.
\<close>

definition eliminate_step :: "int \<Rightarrow> nat \<Rightarrow> nat \<Rightarrow> tableau \<Rightarrow> nat \<Rightarrow> tableau" where
  "eliminate_step lr p enter_col t i =
     (if int i \<noteq> lr
      then t[i := map2 (\<lambda>x y. x - (t ! i ! enter_col) * y) (t ! i) (t ! p)]
      else t)"

definition eliminate :: "int \<Rightarrow> nat \<Rightarrow> nat \<Rightarrow> tableau \<Rightarrow> tableau" where
  "eliminate lr p enter_col t = foldl (eliminate_step lr p enter_col) t [0..<length t]"

text \<open>
  The update of the basis list and the pivot, for a leaving row \<open>lr\<close> as the ratio loop
  left it. \<open>basic_vars[leave_row - 1]\<close> and \<open>tableau[leave_row]\<close> follow Python indexing.
\<close>

definition pivot_on ::
  "tableau \<Rightarrow> int list \<Rightarrow> int \<Rightarrow> nat \<Rightarrow> error + (tableau \<times> int list)" where
  "pivot_on t basic_vars lr enter_col =
     (case py_index (length basic_vars) (lr - 1) of
        None \<Rightarrow> Inl IndexError
      | Some k \<Rightarrow>
          (case py_index (length t) lr of
             None \<Rightarrow> Inl IndexError
           | Some p \<Rightarrow>
               let basic_vars' = basic_vars[k := int enter_col];
                   pivot = t ! p ! enter_col
               in if pivot = 0 then Inl ZeroDivision
                  else let t1 = t[p := map (\<lambda>x. x / pivot) (t ! p)]
                       in Inr (eliminate lr p enter_col t1, basic_vars')))"

text \<open>
  The solution vector built on the optimal exit: \<open>np.zeros(num_original_vars)\<close> fails on a
  negative size, and \<open>solution[basic_idx]\<close> is written only when
  \<open>basic_idx < num_original_vars\<close>.
\<close>

fun fill_solution :: "tableau \<Rightarrow> int \<Rightarrow> (nat \<times> int) list \<Rightarrow> rat list \<Rightarrow> error + rat list" where
  "fill_solution t nov [] sol = Inr sol"
| "fill_solution t nov ((i, basic_idx) # rest) sol =
     (if basic_idx < nov then
        (case py_index (length sol) basic_idx of
           None \<Rightarrow> Inl IndexError
         | Some j \<Rightarrow> fill_solution t nov rest (sol[j := last (t ! (i + 1))]))
      else fill_solution t nov rest sol)"

definition build_solution :: "tableau \<Rightarrow> int \<Rightarrow> int list \<Rightarrow> error + rat list" where
  "build_solution t nov basic_vars =
     (if nov < 0 then Inl ValueError
      else fill_solution t nov (zip [0..<length basic_vars] basic_vars)
             (replicate (nat nov) 0))"

type_synonym solver_result = "tableau \<times> status \<times> int list option \<times> rat list option"

datatype iteration =
    Return solver_result
  | Raise error
  | Continue tableau "int list"

definition obj_row :: "tableau \<Rightarrow> rat list" where
  "obj_row t = butlast (hd t)"

definition negative_indices :: "tableau \<Rightarrow> nat list" where
  "negative_indices t = filter (\<lambda>j. obj_row t ! j < - eps) [0..<length (obj_row t)]"

definition is_optimal :: "tableau \<Rightarrow> bool" where
  "is_optimal t = list_all (\<lambda>x. x \<ge> - eps) (obj_row t)"

definition column :: "tableau \<Rightarrow> nat \<Rightarrow> rat list" where
  "column t j = map (\<lambda>row. row ! j) (tl t)"

definition rhs_column :: "tableau \<Rightarrow> rat list" where
  "rhs_column t = map last (tl t)"

text \<open>One pass of the body of \<open>while True\<close>, for \<open>num_original_vars = nov\<close>.\<close>

definition simplex_iteration :: "int \<Rightarrow> tableau \<Rightarrow> int list \<Rightarrow> iteration" where
  "simplex_iteration nov t basic_vars =
     (if t = [] then Raise IndexError
      else if is_optimal t then
        (case build_solution t nov basic_vars of
           Inl e \<Rightarrow> Raise e
         | Inr solution \<Rightarrow> Return (t, Optimal, Some basic_vars, Some solution))
      else
        (case negative_indices t of
           [] \<Rightarrow> Raise IndexError
         | enter_col # _ \<Rightarrow>
             let constraints = column t enter_col;
                 rhs = rhs_column t
             in if list_all (\<lambda>x. x \<le> 0) constraints
                then Return (t, Unbounded, None, None)
                else
                  let st = ratio_loop constraints rhs basic_vars
                  in (case pivot_on t basic_vars (leave_row st) enter_col of
                        Inl e \<Rightarrow> Raise e
                      | Inr (t', basic_vars') \<Rightarrow> Continue t' basic_vars')))"

partial_function (option) simplex_loop ::
  "int \<Rightarrow> tableau \<Rightarrow> int list \<Rightarrow> (error + solver_result) option" where
  "simplex_loop nov t basic_vars =
     (case simplex_iteration nov t basic_vars of
        Return r \<Rightarrow> Some (Inr r)
      | Raise e \<Rightarrow> Some (Inl e)
      | Continue t' basic_vars' \<Rightarrow> simplex_loop nov t' basic_vars')"

declare simplex_loop.simps [code]

text \<open>
  \<open>m, n = tableau.shape\<close>, both reduced by one; the basis starts as \<open>range(n - m, n)\<close>.
  A tableau without rows has no row 0 to read.
\<close>

definition num_original_vars :: "tableau \<Rightarrow> int" where
  "num_original_vars t = (int (length (hd t)) - 1) - (int (length t) - 1)"

definition initial_basis :: "tableau \<Rightarrow> int list" where
  "initial_basis t = [num_original_vars t .. int (length (hd t)) - 1 - 1]"

definition solve_simplex :: "tableau \<Rightarrow> (error + solver_result) option" where
  "solve_simplex t =
     (if t = [] then Some (Inl IndexError)
      else simplex_loop (num_original_vars t) t (initial_basis t))"

section \<open>The pipeline (main.py)\<close>

text \<open>
  \<open>read_and_standardize\<close> tags every row as an equality. The array built from the rows
  of the converted problem is two-dimensional only when there is a row; numpy's QR
  rejects the other case. The pipeline is followed up to the call of the verification
  consumer, which receives the objective value and the solution vector.
\<close>

datatype outcome =
    Stop_Infeasible
  | To_Verifier rat "rat list"
  | Report_Unbounded rat
  | Report_Infeasible rat

definition standardize :: "rat list \<Rightarrow> rat list list \<Rightarrow> rat list \<Rightarrow> rat list \<times> rat list list \<times> rat list" where
  "standardize c A b =
     convert_to_standard_form c A b (replicate (length A) ''='') False"

definition M_pipeline :: rat where
  "M_pipeline = 1000000"

definition report :: "solver_result \<Rightarrow> error + outcome" where
  "report r =
     (case r of (final_tableau, status, basic_vars, solution) \<Rightarrow>
        let obj_val = - last (hd final_tableau)
        in (case status of
              Optimal \<Rightarrow>
                (case solution of
                   None \<Rightarrow> Inl ValueError
                 | Some sol \<Rightarrow> Inr (To_Verifier obj_val sol))
            | Unbounded \<Rightarrow> Inr (Report_Unbounded obj_val)
            | Infeasible \<Rightarrow> Inr (Report_Infeasible obj_val)))"

definition solve_linear_program ::
  "qr_factorisation \<Rightarrow> rat list \<Rightarrow> rat list list \<Rightarrow> rat list \<Rightarrow> (error + outcome) option" where
  "solve_linear_program qr c0 A0 b0 =
     (case standardize c0 A0 b0 of (c, A_rows, b) \<Rightarrow>
        if A_rows = [] then Some (Inl LinAlgError)
        else
          (case check_and_fix_rank qr c \<lparr>ncols = length (hd A_rows), rows = A_rows\<rparr> b
                  tol_default of
             Inl e \<Rightarrow> Some (Inl e)
           | Inr (is_feasible, c1, A1, b1) \<Rightarrow>
               if \<not> is_feasible then Some (Inr Stop_Infeasible)
               else
                 (case initialize_tableau c1 A1 b1 M_pipeline of
                    Inl e \<Rightarrow> Some (Inl e)
                  | Inr tableau_big_m \<Rightarrow>
                      (case solve_simplex tableau_big_m of
                         None \<Rightarrow> None
                       | Some (Inl e) \<Rightarrow> Some (Inl e)
                       | Some (Inr r) \<Rightarrow> Some (report r)))))"


section \<open>Shapes\<close>

text \<open>A numpy matrix is rectangular: every row has \<open>ncols\<close> entries.\<close>

definition well_shaped :: "matrix \<Rightarrow> bool" where
  "well_shaped A = list_all (\<lambda>r. length r = ncols A) (rows A)"

text \<open>The sign a constraint row is copied with: negated when its right-hand side is negative.\<close>

definition row_sign :: "rat \<Rightarrow> rat \<Rightarrow> rat" where
  "row_sign bi x = (if bi < 0 then - x else x)"

text \<open>
  Rows tagged \<open><=\<close> or \<open>>=\<close> are the ones that get a slack or surplus column; the slack
  entries appended to row \<open>i\<close> depend on its tag.
\<close>

definition is_inequality :: "string \<Rightarrow> bool" where
  "is_inequality t = (t = ''<='' \<or> t = ''>='')"

definition slack_of :: "nat \<Rightarrow> nat \<Rightarrow> string \<Rightarrow> rat list" where
  "slack_of k i t =
     (if t = ''<='' then slack_columns k i 1
      else if t = ''>='' then slack_columns k i (- 1)
      else replicate k 0)"

definition inequality_rows :: "string list \<Rightarrow> nat list" where
  "inequality_rows tags = filter (\<lambda>i. is_inequality (tags ! i)) [0..<length tags]"

definition docstring_tags :: "string list" where
  "docstring_tags = [''>='', ''='', ''<='']"

definition docstring_rows :: "rat list list" where
  "docstring_rows = [[1, 2, - 1], [4, - 2, 1], [1, 1, 1]]"

definition docstring_matrix :: matrix where
  "docstring_matrix = \<lparr>ncols = 2, rows = [[1, 1], [2, - 1]]\<rparr>"

section \<open>The ratio test\<close>

text \<open>
  The ratio of row \<open>i\<close>, the rows the ratio loop considers (entry above 1e-10), the
  state the loop is in after choosing row \<open>i\<close>, and what it means for \<open>i\<close> to be best
  among the first \<open>p\<close> rows: smallest ratio, and smallest basic variable among the
  rows of that ratio. Ratios are separated when no two of them differ by a positive
  amount of at most 1e-10.
\<close>

definition ratio_at :: "rat list \<Rightarrow> rat list \<Rightarrow> nat \<Rightarrow> rat" where
  "ratio_at constraints rhs i = rhs ! i / constraints ! i"

definition candidate :: "rat list \<Rightarrow> nat \<Rightarrow> bool" where
  "candidate constraints i = (i < length constraints \<and> constraints ! i > eps)"

definition separated :: "rat list \<Rightarrow> rat list \<Rightarrow> bool" where
  "separated constraints rhs =
     (\<forall>i j. candidate constraints i \<and> candidate constraints j
              \<and> ratio_at constraints rhs i < ratio_at constraints rhs j
            \<longrightarrow> ratio_at constraints rhs i < ratio_at constraints rhs j - eps)"

definition selected_state :: "rat list \<Rightarrow> rat list \<Rightarrow> int list \<Rightarrow> nat \<Rightarrow> ratio_state" where
  "selected_state constraints rhs basic_vars i =
     \<lparr>min_ratio = Some (ratio_at constraints rhs i), leave_row = int i + 1,
      min_basic_var = Some (basic_vars ! i)\<rparr>"

definition best_so_far :: "rat list \<Rightarrow> rat list \<Rightarrow> int list \<Rightarrow> nat \<Rightarrow> nat \<Rightarrow> bool" where
  "best_so_far c r bv p i =
     (\<forall>j<p. candidate c j \<longrightarrow>
        ratio_at c r i \<le> ratio_at c r j
        \<and> (ratio_at c r j = ratio_at c r i \<longrightarrow> bv ! i \<le> bv ! j))"




section \<open>The basis invariant\<close>



text \<open>
  The state of the loop of \<open>solve_simplex\<close> after \<open>k\<close> pivots, if it makes that many;
  whether the ratio loop has a row to select, an entry of the entering column above
  1e-10, in one iteration and in each of the first \<open>k\<close>; and the tableau after the
  pivot on row \<open>p\<close> and column \<open>e\<close> in closed form.
\<close>

fun pivots :: "nat \<Rightarrow> int \<Rightarrow> tableau \<Rightarrow> int list \<Rightarrow> (tableau \<times> int list) option" where
  "pivots 0 nov t bv = Some (t, bv)"
| "pivots (Suc k) nov t bv =
     (case simplex_iteration nov t bv of
        Continue t' bv' \<Rightarrow> pivots k nov t' bv'
      | _ \<Rightarrow> None)"




section \<open>Concrete inputs\<close>

text \<open>The degenerate tableau of \<open>test_blands\<close>, and the tableau its run ends with.\<close>

definition bland_tableau :: tableau where
  "bland_tableau =
     [[- 3 / 4, 20, - 1 / 2, 6, 0, 0, 0, 3],
      [1 / 4, - 8, - 1, 9, 1, 0, 0, 0],
      [1 / 2, - 12, - 1 / 2, 3, 0, 1, 0, 0],
      [0, 0, 1, 0, 0, 0, 1, 1]]"

definition bland_final :: tableau where
  "bland_final =
     [[0, 2, 0, 21 / 2, 0, 3 / 2, 5 / 4, 17 / 4],
      [0, 0, 1, 0, 0, 0, 1, 1],
      [0, - 2, 0, 15 / 2, 1, - (1 / 2), 3 / 4, 3 / 4],
      [1, - 24, 0, 6, 0, 2, 1, 1]]"

text \<open>
  A tableau whose entering column has a positive entry that does not exceed 1e-10:
  the one built from \<open>c = [0, 0]\<close>, \<open>A = [[5e-11, 0], [0, 1]]\<close>, \<open>b = [1, 1]\<close>, \<open>M = 1e6\<close>.
\<close>

definition tiny_matrix :: matrix where
  "tiny_matrix = \<lparr>ncols = 2, rows = [[1 / 20000000000, 0], [0, 1]]\<rparr>"

definition tiny_tableau :: tableau where
  "tiny_tableau =
     [[- (1 / 20000), - 1000000, 0, 0, - 2000000],
      [1 / 20000000000, 0, 1, 0, 1],
      [0, 1, 0, 1, 1]]"

definition unbounded_tableau :: tableau where
  "unbounded_tableau = [[0, - 1, 1, 0, 0], [1, - 1, 1, 0, 0], [0, 0, 1, 1, 0]]"


definition qr_3_4 :: qr_factorisation where
  "qr_3_4 A = ([[3 / 5, - (4 / 5)], [4 / 5, 3 / 5]], [[5, 5], [0, 0]])"

definition parallel_matrix :: matrix where
  "parallel_matrix = \<lparr>ncols = 2, rows = [[3, 3], [4, 4]]\<rparr>"

definition unit_matrix :: matrix where
  "unit_matrix = \<lparr>ncols = 1, rows = [[1]]\<rparr>"






definition pair_matrix :: matrix where
  "pair_matrix = \<lparr>ncols = 2, rows = [[1, 0], [0, 1]]\<rparr>"


definition pair_mid :: tableau where
  "pair_mid = [[0, - 9999, 9999, 0, - 10001], [1, 0, 1, 0, 1], [0, 1, 0, 1, 1]]"


text \<open>
  A problem with one column, rows 3 and 4, and a right-hand side that misses the column
  space by 1.5e-8 in its second entry; the same problem with its second row multiplied
  by 35/16; and the problem \<open>x = 1\<close> with its row multiplied by 1e-6. \<open>qr_column\<close>
  is the QR factorisation of these matrices: the columns \<open>(3, 4)\<close> and \<open>(3, 35/4)\<close> have
  norms 5 and 37/4, and a matrix of one entry is its own \<open>R\<close>.
\<close>

definition qr_column :: qr_factorisation where
  "qr_column A =
     (if rows A = [[3], [4]] then ([[- (3 / 5)], [- (4 / 5)]], [[- 5]])
      else if rows A = [[3], [35 / 4]] then ([[- (12 / 37)], [- (35 / 37)]], [[- (37 / 4)]])
      else ([[1]], rows A))"

definition column_matrix :: matrix where
  "column_matrix = \<lparr>ncols = 1, rows = [[3], [4]]\<rparr>"

definition column_scaled :: matrix where
  "column_scaled = \<lparr>ncols = 1, rows = [[3], [35 / 4]]\<rparr>"

definition column_reduced :: matrix where
  "column_reduced = \<lparr>ncols = 1, rows = [[3]]\<rparr>"

definition column_rhs :: "rat list" where
  "column_rhs = [3, 4 + 3 / 200000000]"

definition column_rhs_scaled :: "rat list" where
  "column_rhs_scaled = [3, 35 / 16 * (4 + 3 / 200000000)]"

definition unit_scaled :: matrix where
  "unit_scaled = \<lparr>ncols = 1, rows = [[1 / 1000000]]\<rparr>"









section \<open>Running the loop\<close>

lemma loop_continue:
  "simplex_iteration nov t bv = Continue t' bv' \<Longrightarrow>
   simplex_loop nov t bv = simplex_loop nov t' bv'"
  by (subst simplex_loop.simps) simp

lemma loop_return:
  "simplex_iteration nov t bv = Return r \<Longrightarrow> simplex_loop nov t bv = Some (Inr r)"
  by (subst simplex_loop.simps) simp

lemma loop_raise:
  "simplex_iteration nov t bv = Raise e \<Longrightarrow> simplex_loop nov t bv = Some (Inl e)"
  by (subst simplex_loop.simps) simp

section \<open>The unbounded exit\<close>

text \<open>
  C6. In an iteration that is not optimal and whose entering column (the first column
  with objective entry below -1e-10) has no positive entry in the constraint rows,
  the solver returns the tableau with status unbounded, and both the basis list and
  the solution vector are \<open>None\<close>.
\<close>

theorem unbounded_returns_none:
  assumes "t \<noteq> []"
    and "\<not> is_optimal t"
    and "list_all (\<lambda>x. x \<le> 0) (column t (hd (negative_indices t)))"
  shows "simplex_loop nov t basic_vars = Some (Inr (t, Unbounded, None, None))"
proof -
  from assms(2) obtain j where "j < length (obj_row t)" "obj_row t ! j < - eps"
    by (auto simp: is_optimal_def list_all_iff in_set_conv_nth not_le)
  then have "j \<in> set (negative_indices t)"
    by (simp add: negative_indices_def)
  then have "negative_indices t \<noteq> []"
    by auto
  then obtain e es where ne: "negative_indices t = e # es"
    by (cases "negative_indices t") auto
  with assms have "simplex_iteration nov t basic_vars = Return (t, Unbounded, None, None)"
    by (simp add: simplex_iteration_def)
  then show ?thesis
    by (subst simplex_loop.simps) simp
qed

theorem unbounded_returns_none_witness:
  "simplex_loop 2 unbounded_tableau [0, 3]
     = Some (Inr (unbounded_tableau, Unbounded, None, None))"
proof -
  have 1: "unbounded_tableau \<noteq> []"
    by (simp add: unbounded_tableau_def)
  have 2: "\<not> is_optimal unbounded_tableau"
    by code_simp
  have 3: "list_all (\<lambda>x. x \<le> 0) (column unbounded_tableau (hd (negative_indices unbounded_tableau)))"
    by code_simp
  show ?thesis
    by (rule unbounded_returns_none [OF 1 2 3])
qed

section \<open>The degenerate tableau\<close>

lemma bland_step1:
  "simplex_iteration 4 bland_tableau [4, 5, 6] = Continue
     [[0, - 4, - (7 / 2), 33, 3, 0, 0, 3], [1, - 32, - 4, 36, 4, 0, 0, 0],
      [0, 4, 3 / 2, - 15, - 2, 1, 0, 0], [0, 0, 1, 0, 0, 0, 1, 1]]
     [0, 5, 6]"
  by code_simp

lemma bland_step2:
  "simplex_iteration 4
     [[0, - 4, - (7 / 2), 33, 3, 0, 0, 3], [1, - 32, - 4, 36, 4, 0, 0, 0],
      [0, 4, 3 / 2, - 15, - 2, 1, 0, 0], [0, 0, 1, 0, 0, 0, 1, 1]]
     [0, 5, 6] = Continue
     [[0, 0, - 2, 18, 1, 1, 0, 3], [1, 0, 8, - 84, - 12, 8, 0, 0],
      [0, 1, 3 / 8, - (15 / 4), - (1 / 2), 1 / 4, 0, 0],
      [0, 0, 1, 0, 0, 0, 1, 1]]
     [0, 1, 6]"
  by code_simp

lemma bland_step3:
  "simplex_iteration 4
     [[0, 0, - 2, 18, 1, 1, 0, 3], [1, 0, 8, - 84, - 12, 8, 0, 0],
      [0, 1, 3 / 8, - (15 / 4), - (1 / 2), 1 / 4, 0, 0],
      [0, 0, 1, 0, 0, 0, 1, 1]]
     [0, 1, 6] = Continue
     [[1 / 4, 0, 0, - 3, - 2, 3, 0, 3],
      [1 / 8, 0, 1, - (21 / 2), - (3 / 2), 1, 0, 0],
      [- (3 / 64), 1, 0, 3 / 16, 1 / 16, - (1 / 8), 0, 0],
      [- (1 / 8), 0, 0, 21 / 2, 3 / 2, - 1, 1, 1]]
     [2, 1, 6]"
  by code_simp

lemma bland_step4:
  "simplex_iteration 4
     [[1 / 4, 0, 0, - 3, - 2, 3, 0, 3],
      [1 / 8, 0, 1, - (21 / 2), - (3 / 2), 1, 0, 0],
      [- (3 / 64), 1, 0, 3 / 16, 1 / 16, - (1 / 8), 0, 0],
      [- (1 / 8), 0, 0, 21 / 2, 3 / 2, - 1, 1, 1]]
     [2, 1, 6] = Continue
     [[- (1 / 2), 16, 0, 0, - 1, 1, 0, 3], [- (5 / 2), 56, 1, 0, 2, - 6, 0, 0],
      [- (1 / 4), 16 / 3, 0, 1, 1 / 3, - (2 / 3), 0, 0],
      [5 / 2, - 56, 0, 0, - 2, 6, 1, 1]]
     [2, 3, 6]"
  by code_simp

lemma bland_step5:
  "simplex_iteration 4
     [[- (1 / 2), 16, 0, 0, - 1, 1, 0, 3], [- (5 / 2), 56, 1, 0, 2, - 6, 0, 0],
      [- (1 / 4), 16 / 3, 0, 1, 1 / 3, - (2 / 3), 0, 0],
      [5 / 2, - 56, 0, 0, - 2, 6, 1, 1]]
     [2, 3, 6] = Continue
     [[0, 24 / 5, 0, 0, - (7 / 5), 11 / 5, 1 / 5, 16 / 5],
      [0, 0, 1, 0, 0, 0, 1, 1],
      [0, - (4 / 15), 0, 1, 2 / 15, - (1 / 15), 1 / 10, 1 / 10],
      [1, - (112 / 5), 0, 0, - (4 / 5), 12 / 5, 2 / 5, 2 / 5]]
     [2, 3, 0]"
  by code_simp

lemma bland_step6:
  "simplex_iteration 4
     [[0, 24 / 5, 0, 0, - (7 / 5), 11 / 5, 1 / 5, 16 / 5],
      [0, 0, 1, 0, 0, 0, 1, 1],
      [0, - (4 / 15), 0, 1, 2 / 15, - (1 / 15), 1 / 10, 1 / 10],
      [1, - (112 / 5), 0, 0, - (4 / 5), 12 / 5, 2 / 5, 2 / 5]]
     [2, 3, 0] = Continue bland_final [2, 4, 0]"
  by code_simp

lemma bland_step7:
  "simplex_iteration 4 bland_final [2, 4, 0]
     = Return (bland_final, Optimal, Some [2, 4, 0], Some [1, 0, 1, 0])"
  by code_simp

lemma bland_start:
  "solve_simplex bland_tableau = simplex_loop 4 bland_tableau [4, 5, 6]"
proof -
  have "num_original_vars bland_tableau = 4"
    by (simp add: num_original_vars_def bland_tableau_def)
  moreover have "initial_basis bland_tableau = [4, 5, 6]"
    by code_simp
  moreover have "bland_tableau \<noteq> []"
    by (simp add: bland_tableau_def)
  ultimately show ?thesis
    by (simp add: solve_simplex_def)
qed

lemma bland_run:
  "solve_simplex bland_tableau
     = Some (Inr (bland_final, Optimal, Some [2, 4, 0], Some [1, 0, 1, 0]))"
  by (simp only: bland_start loop_continue [OF bland_step1] loop_continue [OF bland_step2]
      loop_continue [OF bland_step3] loop_continue [OF bland_step4]
      loop_continue [OF bland_step5] loop_continue [OF bland_step6]
      loop_return [OF bland_step7])

lemma bland_objective: "- last (hd bland_final) = - (17 / 4)"
  by (simp add: bland_final_def)

text \<open>
  C2, as the code has it. On the degenerate tableau the pivot loop ends after six
  pivots with status optimal, basis \<open>[2, 4, 0]\<close> and solution \<open>[1, 0, 1, 0]\<close>; the final
  objective value, the negated objective-row entry of the last column, is -17/4. It
  differs from -3, which is what \<open>test_blands\<close> asserts, and lies below it.
\<close>

theorem bland_terminates_optimal:
  "solve_simplex bland_tableau
     = Some (Inr (bland_final, Optimal, Some [2, 4, 0], Some [1, 0, 1, 0]))
   \<and> - last (hd bland_final) = - (17 / 4)
   \<and> - last (hd bland_final) < - 3"
  using bland_run bland_objective by simp

theorem bland_terminates_optimal_witness:
  "fst (snd (bland_final, Optimal, Some [2, 4, 0 :: int], Some [1, 0, 1, 0 :: rat])) = Optimal
   \<and> solve_simplex bland_tableau \<noteq> None"
  using bland_terminates_optimal by simp

text \<open>
  C2, as the specification states it, fails: the final objective value of the run is
  not strictly greater than -3.
\<close>

theorem bland_objective_not_above: 
  "solve_simplex bland_tableau
     = Some (Inr (bland_final, Optimal, Some [2, 4, 0], Some [1, 0, 1, 0]))
   \<and> \<not> (- last (hd bland_final) > - 3)"
  using bland_run bland_objective by simp

section \<open>The leaving row when every positive entry is tiny\<close>

lemma tiny_built: "initialize_tableau [0, 0] tiny_matrix [1, 1] 1000000 = Inr tiny_tableau"
  by code_simp

lemma tiny_not_optimal: "\<not> is_optimal tiny_tableau"
  by code_simp

lemma tiny_enter: "negative_indices tiny_tableau = [0, 1]"
  by code_simp

lemma tiny_not_unbounded: "\<not> list_all (\<lambda>x. x \<le> 0) (column tiny_tableau 0)"
  by code_simp

lemma tiny_sentinel:
  "leave_row (ratio_loop (column tiny_tableau 0) (rhs_column tiny_tableau) [2, 3]) = - 1"
  by code_simp

lemma tiny_pivot: "tiny_tableau ! 2 ! 0 = 0"
  by code_simp

lemma tiny_iteration: "simplex_iteration 2 tiny_tableau [2, 3] = Raise ZeroDivision"
  by code_simp

lemma tiny_start: "solve_simplex tiny_tableau = simplex_loop 2 tiny_tableau [2, 3]"
proof -
  have "num_original_vars tiny_tableau = 2"
    by (simp add: num_original_vars_def tiny_tableau_def)
  moreover have "initial_basis tiny_tableau = [2, 3]"
    by code_simp
  moreover have "tiny_tableau \<noteq> []"
    by (simp add: tiny_tableau_def)
  ultimately show ?thesis
    by (simp add: solve_simplex_def)
qed

text \<open>
  C10 fails on the code. On the tableau built from \<open>A = [[5e-11, 0], [0, 1]]\<close> the first
  iteration enters column 0; the unboundedness test fails, since 5e-11 is positive; no
  entry of the column exceeds 1e-10, so the ratio loop leaves \<open>leave_row\<close> at the
  sentinel -1; Python reads \<open>tableau[-1]\<close> as the last row, whose entry in column 0 is
  0, and the pivot row is divided by zero.
\<close>

theorem sentinel_leaving_row:
  "initialize_tableau [0, 0] tiny_matrix [1, 1] 1000000 = Inr tiny_tableau
   \<and> hd (negative_indices tiny_tableau) = 0
   \<and> \<not> list_all (\<lambda>x. x \<le> 0) (column tiny_tableau 0)
   \<and> leave_row (ratio_loop (column tiny_tableau 0) (rhs_column tiny_tableau) [2, 3]) = - 1
   \<and> py_index (length tiny_tableau) (- 1) = Some 2
   \<and> tiny_tableau ! 2 ! 0 = 0
   \<and> solve_simplex tiny_tableau = Some (Inl ZeroDivision)"
  using tiny_built tiny_enter tiny_not_unbounded tiny_sentinel tiny_pivot
    loop_raise [OF tiny_iteration] tiny_start
  by (simp add: py_index_def tiny_tableau_def)

section \<open>The initial tableau\<close>

lemma objective_step_length:
  "length obj = n + k \<Longrightarrow> length (A ! i) = n \<Longrightarrow>
   length (objective_step n M A b obj i) = n + k"
  by (simp add: objective_step_def)

lemma objective_step_structural:
  "length obj = n + k \<Longrightarrow> length (A ! i) = n \<Longrightarrow> j < n \<Longrightarrow>
   objective_step n M A b obj i ! j = obj ! j - M * row_sign (b ! i) (A ! i ! j)"
  by (simp add: objective_step_def nth_append row_sign_def)

lemma objective_step_rest:
  "length obj = n + k \<Longrightarrow> length (A ! i) = n \<Longrightarrow> n \<le> j \<Longrightarrow>
   objective_step n M A b obj i ! j = obj ! j"
  by (simp add: objective_step_def nth_append)

lemma objective_fold:
  assumes "length obj = n + k" and "\<forall>i<m. length (A ! i) = n" and "p \<le> m"
  shows "length (foldl (objective_step n M A b) obj [0..<p]) = n + k
    \<and> (\<forall>j<n. foldl (objective_step n M A b) obj [0..<p] ! j
           = obj ! j - M * sum_list (map (\<lambda>i. row_sign (b ! i) (A ! i ! j)) [0..<p]))
    \<and> (\<forall>j\<ge>n. foldl (objective_step n M A b) obj [0..<p] ! j = obj ! j)"
  using assms(3)
proof (induction p)
  case 0
  then show ?case using assms(1) by simp
next
  case (Suc p)
  then have ih: "length (foldl (objective_step n M A b) obj [0..<p]) = n + k"
    "\<And>j. j < n \<Longrightarrow> foldl (objective_step n M A b) obj [0..<p] ! j
           = obj ! j - M * sum_list (map (\<lambda>i. row_sign (b ! i) (A ! i ! j)) [0..<p])"
    "\<And>j. n \<le> j \<Longrightarrow> foldl (objective_step n M A b) obj [0..<p] ! j = obj ! j"
    by simp_all
  from Suc.prems assms(2) have len: "length (A ! p) = n" by simp
  show ?case
    by (simp add: objective_step_length [OF ih(1) len]
        objective_step_structural [OF ih(1) len] objective_step_rest [OF ih(1) len]
        ih(2) ih(3) algebra_simps)
qed

lemma constraint_row_eq:
  "length a = n \<Longrightarrow>
   constraint_row n m a bi i
     = (map (row_sign bi) a @ replicate (m + 1) 0)[n + i := 1, n + m := \<bar>bi\<bar>]"
proof -
  have d: "drop n (replicate (n + m + 1) (0::rat)) = replicate (m + 1) 0"
    by (simp del: replicate_Suc)
  have "row_sign bi = (if bi < 0 then uminus else (\<lambda>x. x))"
    by (auto simp: row_sign_def fun_eq_iff)
  then have s: "(if bi < 0 then map uminus a else a) = map (row_sign bi) a"
    by simp
  show ?thesis
    unfolding constraint_row_def Let_def d s by (simp add: abs_if)
qed

lemma constraint_row_length:
  "length a = n \<Longrightarrow> length (constraint_row n m a bi i) = n + m + 1"
  by (simp add: constraint_row_eq)

lemma constraint_row_structural:
  "length a = n \<Longrightarrow> j < n \<Longrightarrow> constraint_row n m a bi i ! j = row_sign bi (a ! j)"
  by (simp add: constraint_row_eq nth_append nth_list_update)

lemma constraint_row_artificial:
  "length a = n \<Longrightarrow> i < m \<Longrightarrow> k < m \<Longrightarrow>
   constraint_row n m a bi i ! (n + k) = (if k = i then 1 else 0)"
  by (simp add: constraint_row_eq nth_append nth_list_update del: replicate_Suc)

lemma constraint_row_rhs:
  "length a = n \<Longrightarrow> constraint_row n m a bi i ! (n + m) = \<bar>bi\<bar>"
  by (simp add: constraint_row_eq)

lemma objective_row_props:
  assumes "length c = n" and "\<forall>i<m. length (A ! i) = n"
  shows "length (objective_row n m c A b M) = n + m + 1"
    and "\<And>j. j < n \<Longrightarrow> objective_row n m c A b M ! j
           = c ! j - M * sum_list (map (\<lambda>i. row_sign (b ! i) (A ! i ! j)) [0..<m])"
    and "\<And>k. k < m \<Longrightarrow> objective_row n m c A b M ! (n + k) = 0"
    and "objective_row n m c A b M ! (n + m) = - M * sum_list (map (\<lambda>i. \<bar>b ! i\<bar>) [0..<m])"
proof -
  have l0: "length (c @ replicate (m + 1) (0::rat)) = n + (m + 1)"
    using assms(1) by simp
  note f = objective_fold [OF l0 assms(2) order_refl, of M b]
  show "length (objective_row n m c A b M) = n + m + 1"
    using f by (simp add: objective_row_def Let_def)
  show "\<And>j. j < n \<Longrightarrow> objective_row n m c A b M ! j
           = c ! j - M * sum_list (map (\<lambda>i. row_sign (b ! i) (A ! i ! j)) [0..<m])"
    using f assms(1) by (simp add: objective_row_def Let_def nth_append)
  show "\<And>k. k < m \<Longrightarrow> objective_row n m c A b M ! (n + k) = 0"
    using f by (simp add: objective_row_def Let_def nth_append)
  show "objective_row n m c A b M ! (n + m) = - M * sum_list (map (\<lambda>i. \<bar>b ! i\<bar>) [0..<m])"
    using f by (simp add: objective_row_def Let_def nth_append sum_list_const_mult)
qed

text \<open>
  C5. For a rectangular \<open>m \<times> n\<close> matrix \<open>A\<close>, \<open>c\<close> of length \<open>n\<close>, \<open>b\<close> of length \<open>m\<close> and any
  penalty \<open>M\<close>, \<open>initialize_tableau\<close> returns a tableau of \<open>m + 1\<close> rows of \<open>n + m + 1\<close>
  entries. Constraint row \<open>i\<close> is \<open>-A[i]\<close> with right-hand side \<open>-b[i]\<close> when \<open>b[i] < 0\<close> and
  \<open>A[i]\<close> with \<open>b[i]\<close> otherwise, so its right-hand side is not negative, and its artificial
  entries are the \<open>i\<close>-th unit vector. The objective row holds \<open>c\<close> plus \<open>M A[i]\<close> for each
  negated row and minus \<open>M A[i]\<close> for each other row, zeros in the artificial columns,
  and \<open>-M\<close> times the sum of the \<open>|b[i]|\<close> in the last column. Full row rank is not needed.
\<close>

theorem initialize_tableau_entries:
  assumes shape: "well_shaped A"
    and m: "m = length (rows A)"
    and n: "n = ncols A"
    and c: "length c = n"
    and b: "length b = m"
  shows "\<exists>T. initialize_tableau c A b M = Inr T
    \<and> length T = m + 1
    \<and> list_all (\<lambda>r. length r = n + m + 1) T
    \<and> (\<forall>i<m. \<forall>j<n. T ! (i + 1) ! j
          = (if b ! i < 0 then - (rows A ! i ! j) else rows A ! i ! j))
    \<and> (\<forall>i<m. T ! (i + 1) ! (n + m) = (if b ! i < 0 then - (b ! i) else b ! i))
    \<and> (\<forall>i<m. T ! (i + 1) ! (n + m) \<ge> 0)
    \<and> (\<forall>i<m. \<forall>k<m. T ! (i + 1) ! (n + k) = (if k = i then 1 else 0))
    \<and> (\<forall>j<n. T ! 0 ! j
          = c ! j + sum_list (map (\<lambda>i. if b ! i < 0 then M * (rows A ! i ! j)
                                        else - (M * (rows A ! i ! j))) [0..<m]))
    \<and> (\<forall>k<m. T ! 0 ! (n + k) = 0)
    \<and> T ! 0 ! (n + m) = - M * sum_list (map (\<lambda>i. \<bar>b ! i\<bar>) [0..<m])"
proof -
  define T where "T = objective_row n m c (rows A) b M
      # map (\<lambda>i. constraint_row n m (rows A ! i) (b ! i) i) [0..<m]"
  have len: "\<forall>i<m. length (rows A ! i) = n"
    using shape m n by (simp add: well_shaped_def list_all_length)
  have built: "initialize_tableau c A b M = Inr T"
    using m n c b by (simp add: initialize_tableau_def T_def Let_def)
  have rows_T: "\<And>i. i < m \<Longrightarrow> T ! Suc i = constraint_row n m (rows A ! i) (b ! i) i"
    by (simp add: T_def)
  have obj_T: "T ! 0 = objective_row n m c (rows A) b M"
    by (simp add: T_def)
  note obj = objective_row_props [OF c len, where b = b and M = M]
  have 1: "length T = m + 1"
    by (simp add: T_def)
  have 2: "list_all (\<lambda>r. length r = n + m + 1) T"
    using len obj(1) by (simp add: T_def list_all_iff constraint_row_length)
  have 3: "\<forall>i<m. \<forall>j<n. T ! (i + 1) ! j
          = (if b ! i < 0 then - (rows A ! i ! j) else rows A ! i ! j)"
    using len by (simp add: rows_T constraint_row_structural row_sign_def)
  have 4: "\<forall>i<m. T ! (i + 1) ! (n + m) = (if b ! i < 0 then - (b ! i) else b ! i)"
    using len by (simp add: rows_T constraint_row_rhs abs_if)
  have 5: "\<forall>i<m. T ! (i + 1) ! (n + m) \<ge> 0"
    using len by (simp add: rows_T constraint_row_rhs)
  have 6: "\<forall>i<m. \<forall>k<m. T ! (i + 1) ! (n + k) = (if k = i then 1 else 0)"
    using len by (simp add: rows_T constraint_row_artificial)
  have sum_eq: "\<And>j. - (M * sum_list (map (\<lambda>i. row_sign (b ! i) (rows A ! i ! j)) [0..<m]))
      = sum_list (map (\<lambda>i. if b ! i < 0 then M * (rows A ! i ! j)
                            else - (M * (rows A ! i ! j))) [0..<m])"
  proof -
    fix j
    have "sum_list (map (\<lambda>i. if b ! i < 0 then M * (rows A ! i ! j)
                            else - (M * (rows A ! i ! j))) [0..<m])
        = sum_list (map (\<lambda>i. (- M) * row_sign (b ! i) (rows A ! i ! j)) [0..<m])"
      by (rule arg_cong [where f = sum_list], rule map_cong) (simp_all add: row_sign_def)
    also have "\<dots> = (- M) * sum_list (map (\<lambda>i. row_sign (b ! i) (rows A ! i ! j)) [0..<m])"
      by (rule sum_list_const_mult)
    finally show "- (M * sum_list (map (\<lambda>i. row_sign (b ! i) (rows A ! i ! j)) [0..<m]))
      = sum_list (map (\<lambda>i. if b ! i < 0 then M * (rows A ! i ! j)
                            else - (M * (rows A ! i ! j))) [0..<m])"
      by simp
  qed
  have 7: "\<forall>j<n. T ! 0 ! j
          = c ! j + sum_list (map (\<lambda>i. if b ! i < 0 then M * (rows A ! i ! j)
                                        else - (M * (rows A ! i ! j))) [0..<m])"
    using obj(2) sum_eq by (simp add: obj_T)
  have 8: "\<forall>k<m. T ! 0 ! (n + k) = 0"
    using obj(3) by (simp add: obj_T)
  have 9: "T ! 0 ! (n + m) = - M * sum_list (map (\<lambda>i. \<bar>b ! i\<bar>) [0..<m])"
    using obj(4) by (simp add: obj_T)
  from built 1 2 3 4 5 6 7 8 9 show ?thesis
    by blast
qed

theorem initialize_tableau_entries_witness:
  "\<exists>T. initialize_tableau [2, 1] docstring_matrix [4, - 2] 10000 = Inr T
    \<and> length T = 2 + 1
    \<and> list_all (\<lambda>r. length r = 2 + 2 + 1) T
    \<and> (\<forall>i<2. \<forall>j<2. T ! (i + 1) ! j
          = (if [4, - 2 :: rat] ! i < 0 then - (rows docstring_matrix ! i ! j)
             else rows docstring_matrix ! i ! j))
    \<and> (\<forall>i<2. T ! (i + 1) ! (2 + 2)
          = (if [4, - 2 :: rat] ! i < 0 then - ([4, - 2] ! i) else [4, - 2] ! i))
    \<and> (\<forall>i<2. T ! (i + 1) ! (2 + 2) \<ge> 0)
    \<and> (\<forall>i<2. \<forall>k<2. T ! (i + 1) ! (2 + k) = (if k = i then 1 else 0))
    \<and> (\<forall>j<2. T ! 0 ! j
          = [2, 1] ! j + sum_list (map (\<lambda>i. if [4, - 2 :: rat] ! i < 0
                                             then 10000 * (rows docstring_matrix ! i ! j)
                                             else - (10000 * (rows docstring_matrix ! i ! j)))
                                     [0..<2]))
    \<and> (\<forall>k<2. T ! 0 ! (2 + k) = 0)
    \<and> T ! 0 ! (2 + 2) = - 10000 * sum_list (map (\<lambda>i. \<bar>[4, - 2 :: rat] ! i\<bar>) [0..<2])"
proof -
  have 1: "well_shaped docstring_matrix"
    by (simp add: well_shaped_def docstring_matrix_def)
  have 2: "2 = length (rows docstring_matrix)"
    by (simp add: docstring_matrix_def)
  have 3: "2 = ncols docstring_matrix"
    by (simp add: docstring_matrix_def)
  have 4: "length [2, 1 :: rat] = 2"
    by simp
  have 5: "length [4, - 2 :: rat] = 2"
    by simp
  show ?thesis
    by (rule initialize_tableau_entries [OF 1 2 3 4 5])
qed

section \<open>The converted problem\<close>

lemma convert_step_eq:
  "convert_step k st (i, row, t)
     = \<lparr>A_new = A_new st @ [row @ slack_of k i t],
        c_new = c_new st @ (if is_inequality t then [0] else []),
        equality_indices = equality_indices st @ (if is_inequality t then [] else [i])\<rparr>"
  by (simp add: convert_step_def slack_of_def is_inequality_def)

lemma convert_fold:
  "foldl (convert_step k) st xs
     = \<lparr>A_new = A_new st @ map (\<lambda>(i, row, t). row @ slack_of k i t) xs,
        c_new = c_new st @ replicate (length (filter (\<lambda>(i, row, t). is_inequality t) xs)) 0,
        equality_indices = equality_indices st
           @ map fst (filter (\<lambda>(i, row, t). \<not> is_inequality t) xs)\<rparr>"
proof (induction xs arbitrary: st)
  case Nil
  then show ?case by simp
next
  case (Cons x xs)
  obtain i row t where x: "x = (i, row, t)"
    by (cases x) auto
  have "foldl (convert_step k) st (x # xs)
      = foldl (convert_step k) (convert_step k st (i, row, t)) xs"
    by (simp add: x)
  also have "\<dots> = \<lparr>A_new = A_new (convert_step k st (i, row, t))
           @ map (\<lambda>(i, row, t). row @ slack_of k i t) xs,
        c_new = c_new (convert_step k st (i, row, t))
           @ replicate (length (filter (\<lambda>(i, row, t). is_inequality t) xs)) 0,
        equality_indices = equality_indices (convert_step k st (i, row, t))
           @ map fst (filter (\<lambda>(i, row, t). \<not> is_inequality t) xs)\<rparr>"
    by (rule Cons.IH)
  also have "\<dots> = \<lparr>A_new = A_new st @ map (\<lambda>(i, row, t). row @ slack_of k i t) (x # xs),
        c_new = c_new st
           @ replicate (length (filter (\<lambda>(i, row, t). is_inequality t) (x # xs))) 0,
        equality_indices = equality_indices st
           @ map fst (filter (\<lambda>(i, row, t). \<not> is_inequality t) (x # xs))\<rparr>"
    by (simp add: convert_step_eq x replicate_app_Cons_same)
  finally show ?case .
qed

lemma zip_upt_nth:
  "length ys = m \<Longrightarrow> zip [0..<m] ys = map (\<lambda>i. (i, ys ! i)) [0..<m]"
  by (rule nth_equalityI) simp_all

lemma filter_indexed:
  "map fst (filter P (map (\<lambda>i. (i, f i)) xs)) = filter (\<lambda>i. P (i, f i)) xs"
  by (induction xs) simp_all

lemma length_filter_indexed:
  "length (filter P (map (\<lambda>i. (i, f i)) xs)) = length (filter (\<lambda>i. P (i, f i)) xs)"
  by (induction xs) simp_all

lemma keep_columns:
  assumes "\<And>i. i < m \<Longrightarrow> (i \<in> set eqs) = (\<not> P i)"
  shows "cols_to_keep (n + m) n eqs = [0..<n] @ map (\<lambda>i. i + n) (filter P [0..<m])"
proof -
  have "[0..<n + m] = [0..<n] @ [n..<n + m]"
    by (rule upt_add_eq_append) simp
  also have "[n..<n + m] = map (\<lambda>i. i + n) [0..<m]"
    by (simp only: map_add_upt add.commute [of m n])
  finally have split: "[0..<n + m] = [0..<n] @ map (\<lambda>i. i + n) [0..<m]" .
  have a: "filter (\<lambda>i. i < n \<or> i - n \<notin> set eqs) [0..<n] = [0..<n]"
    by simp
  have "filter (\<lambda>i. i < n \<or> i - n \<notin> set eqs) (map (\<lambda>i. i + n) [0..<m])
      = map (\<lambda>i. i + n) (filter ((\<lambda>i. i < n \<or> i - n \<notin> set eqs) \<circ> (\<lambda>i. i + n)) [0..<m])"
    by (rule filter_map)
  also have "filter ((\<lambda>i. i < n \<or> i - n \<notin> set eqs) \<circ> (\<lambda>i. i + n)) [0..<m] = filter P [0..<m]"
    by (rule filter_cong) (simp_all add: assms)
  finally have b: "filter (\<lambda>i. i < n \<or> i - n \<notin> set eqs) (map (\<lambda>i. i + n) [0..<m])
      = map (\<lambda>i. i + n) (filter P [0..<m])" .
  show ?thesis
    unfolding cols_to_keep_def split filter_append a b ..
qed

lemma inequality_rows_count:
  "length (inequality_rows tags)
     = length (filter (\<lambda>t. t = ''<='') tags) + length (filter (\<lambda>t. t = ''>='') tags)"
proof (induction tags rule: rev_induct)
  case Nil
  then show ?case by (simp add: inequality_rows_def)
next
  case (snoc t tags)
  have "filter (\<lambda>i. is_inequality ((tags @ [t]) ! i)) [0..<length tags]
      = filter (\<lambda>i. is_inequality (tags ! i)) [0..<length tags]"
    by (rule filter_cong) (simp_all add: nth_append)
  then have "inequality_rows (tags @ [t])
      = inequality_rows tags @ (if is_inequality t then [length tags] else [])"
    by (simp add: inequality_rows_def)
  then show ?case
    using snoc.IH by (auto simp: is_inequality_def)
qed

lemma slack_of_nth:
  "i < k \<Longrightarrow> slack_of k r t ! i
     = (if i = r \<and> t = ''<='' then 1 else if i = r \<and> t = ''>='' then - 1 else 0)"
  by (simp add: slack_of_def slack_columns_def nth_list_update)

lemma slack_of_length: "length (slack_of k r t) = k"
  by (simp add: slack_of_def slack_columns_def)

lemma converted_rows:
  assumes m: "length A = m" "length tags = m"
    and n: "\<forall>r<m. length (A ! r) = n" "length c = n"
  shows "convert_to_standard_form c A b tags mx
     = ((if mx then map uminus c else c) @ replicate (length (inequality_rows tags)) 0,
        map (\<lambda>r. A ! r @ map (\<lambda>i. slack_of m r (tags ! r) ! i) (inequality_rows tags)) [0..<m],
        b)"
proof -
  define c1 where "c1 = (if mx then map uminus c else c)"
  define xs where "xs = map (\<lambda>i. (i, A ! i, tags ! i)) [0..<m]"
  define st where "st = foldl (convert_step m) \<lparr>A_new = [], c_new = c1, equality_indices = []\<rparr> xs"
  define idx where "idx = inequality_rows tags"
  have zipped: "zip A tags = map (\<lambda>i. (A ! i, tags ! i)) [0..<m]"
    using m by (intro nth_equalityI) simp_all
  have xs: "zip [0..<length (zip A tags)] (zip A tags) = xs"
    using m by (simp add: zip_upt_nth [of "zip A tags" m] xs_def)
  have st_eq: "st = \<lparr>A_new = map (\<lambda>(i, row, t). row @ slack_of m i t) xs,
        c_new = c1 @ replicate (length (filter (\<lambda>(i, row, t). is_inequality t) xs)) 0,
        equality_indices = map fst (filter (\<lambda>(i, row, t). \<not> is_inequality t) xs)\<rparr>"
    unfolding st_def by (simp add: convert_fold)
  have A_st: "A_new st = map (\<lambda>r. A ! r @ slack_of m r (tags ! r)) [0..<m]"
    by (simp add: st_eq xs_def o_def)
  have c_st: "c_new st = c1 @ replicate (length idx) 0"
    using m(2) length_filter_indexed [of "\<lambda>(i, row, t). is_inequality t" "\<lambda>i. (A ! i, tags ! i)" "[0..<m]"]
    by (simp add: st_eq xs_def idx_def inequality_rows_def)
  have e_st: "equality_indices st = filter (\<lambda>i. \<not> is_inequality (tags ! i)) [0..<m]"
    using filter_indexed [of "\<lambda>(i, row, t). \<not> is_inequality t" "\<lambda>i. (A ! i, tags ! i)" "[0..<m]"]
    by (simp add: st_eq xs_def)
  have idx: "idx = filter (\<lambda>i. is_inequality (tags ! i)) [0..<m]"
    using m(2) by (simp add: idx_def inequality_rows_def)
  have A2: "(if equality_indices st \<noteq> []
             then map (\<lambda>row. map (\<lambda>j. row ! j)
                         (cols_to_keep (length (hd (A_new st))) (length c1)
                            (equality_indices st))) (A_new st)
             else A_new st)
      = map (\<lambda>r. A ! r @ map (\<lambda>i. slack_of m r (tags ! r) ! i) idx) [0..<m]"
  proof (cases "equality_indices st = []")
    case True
    then have "\<forall>i<m. is_inequality (tags ! i)"
      by (simp add: e_st filter_empty_conv)
    then have "idx = [0..<m]"
      by (simp add: idx)
    moreover have "\<And>r. map (\<lambda>i. slack_of m r (tags ! r) ! i) [0..<m] = slack_of m r (tags ! r)"
      by (rule nth_equalityI) (simp_all add: slack_of_length)
    ultimately show ?thesis
      using True by (simp add: A_st)
  next
    case False
    then have "m \<noteq> 0"
      by (cases m) (simp_all add: e_st)
    then have hd: "length (hd (A_new st)) = n + m"
      using n(1) by (simp add: A_st hd_map upt_conv_Cons slack_of_length)
    have lc: "length c1 = n"
      using n(2) by (simp add: c1_def)
    have keep: "cols_to_keep (n + m) n (equality_indices st) = [0..<n] @ map (\<lambda>i. i + n) idx"
      unfolding idx by (rule keep_columns) (simp add: e_st)
    have row: "\<And>r. r < m \<Longrightarrow>
        map (\<lambda>j. (A ! r @ slack_of m r (tags ! r)) ! j) ([0..<n] @ map (\<lambda>i. i + n) idx)
          = A ! r @ map (\<lambda>i. slack_of m r (tags ! r) ! i) idx"
    proof -
      fix r assume "r < m"
      then have l: "length (A ! r) = n"
        using n(1) by simp
      have "map (\<lambda>j. (A ! r @ slack_of m r (tags ! r)) ! j) [0..<n] = A ! r"
        by (rule nth_equalityI) (simp_all add: l nth_append)
      moreover have "map (\<lambda>j. (A ! r @ slack_of m r (tags ! r)) ! j) (map (\<lambda>i. i + n) idx)
          = map (\<lambda>i. slack_of m r (tags ! r) ! i) idx"
        using l by (simp add: nth_append o_def)
      ultimately show "map (\<lambda>j. (A ! r @ slack_of m r (tags ! r)) ! j)
            ([0..<n] @ map (\<lambda>i. i + n) idx)
          = A ! r @ map (\<lambda>i. slack_of m r (tags ! r) ! i) idx"
        by simp
    qed
    have "(if equality_indices st \<noteq> []
             then map (\<lambda>row. map (\<lambda>j. row ! j)
                         (cols_to_keep (length (hd (A_new st))) (length c1)
                            (equality_indices st))) (A_new st)
             else A_new st)
        = map (\<lambda>row. map (\<lambda>j. row ! j) (cols_to_keep (n + m) n (equality_indices st)))
            (A_new st)"
      using False by (simp add: hd lc Let_def)
    also have "\<dots> = map (\<lambda>row. map (\<lambda>j. row ! j) ([0..<n] @ map (\<lambda>i. i + n) idx)) (A_new st)"
      by (simp only: keep)
    also have "\<dots> = map (\<lambda>r. map (\<lambda>j. (A ! r @ slack_of m r (tags ! r)) ! j)
                              ([0..<n] @ map (\<lambda>i. i + n) idx)) [0..<m]"
      by (simp only: A_st map_map o_def)
    also have "\<dots> = map (\<lambda>r. A ! r @ map (\<lambda>i. slack_of m r (tags ! r) ! i) idx) [0..<m]"
      by (rule map_cong [OF refl]) (simp only: row atLeastLessThan_iff set_upt)
    finally show ?thesis .
  qed
  show ?thesis
    unfolding convert_to_standard_form_def Let_def c1_def [symmetric] m xs st_def [symmetric]
      A2 c_st idx_def by simp
qed

text \<open>
  C8. For \<open>m\<close> rows of \<open>n\<close> entries, \<open>n\<close> objective coefficients and \<open>m\<close> tags,
  \<open>convert_to_standard_form\<close> returns \<open>b\<close> unchanged; \<open>c'\<close> and every row of \<open>A'\<close> have
  \<open>n\<close> plus the number of \<open><=\<close> rows plus the number of \<open>>=\<close> rows entries; the first \<open>n\<close>
  entries of \<open>c'\<close> are \<open>c\<close>, negated when maximizing, and those of each row of \<open>A'\<close> are the
  row of \<open>A\<close>; the \<open>k\<close>-th appended column belongs to the \<open>k\<close>-th row tagged \<open><=\<close> or \<open>>=\<close>:
  its objective coefficient is 0 and it holds +1 (for \<open><=\<close>) or -1 (for \<open>>=\<close>) in that row and 0
  elsewhere. A row with any other tag gets no column.
\<close>

theorem convert_to_standard_form_columns:
  assumes "length A = m" and "length tags = m"
    and "\<forall>r<m. length (A ! r) = n" and "length c = n"
  shows "case convert_to_standard_form c A b tags mx of (c', A', b') \<Rightarrow>
      b' = b
    \<and> length c' = n + length (filter (\<lambda>t. t = ''<='') tags)
                     + length (filter (\<lambda>t. t = ''>='') tags)
    \<and> length A' = m
    \<and> (\<forall>r<m. length (A' ! r) = length c')
    \<and> (\<forall>j<n. c' ! j = (if mx then - (c ! j) else c ! j))
    \<and> (\<forall>r<m. \<forall>j<n. A' ! r ! j = A ! r ! j)
    \<and> (\<forall>k<length (inequality_rows tags).
          c' ! (n + k) = 0
        \<and> (\<forall>r<m. A' ! r ! (n + k)
              = (if r = inequality_rows tags ! k
                 then (if tags ! r = ''<='' then 1 else - 1) else 0)))"
proof -
  define idx where "idx = inequality_rows tags"
  define c1 where "c1 = (if mx then map uminus c else c)"
  have conv: "convert_to_standard_form c A b tags mx
     = (c1 @ replicate (length idx) 0,
        map (\<lambda>r. A ! r @ map (\<lambda>i. slack_of m r (tags ! r) ! i) idx) [0..<m],
        b)"
    unfolding idx_def c1_def by (rule converted_rows [OF assms])
  have c1: "length c1 = n" "\<And>j. j < n \<Longrightarrow> c1 ! j = (if mx then - (c ! j) else c ! j)"
    using assms(4) by (simp_all add: c1_def)
  have idx: "\<And>k. k < length idx \<Longrightarrow> idx ! k < m \<and> is_inequality (tags ! (idx ! k))"
  proof -
    fix k assume "k < length idx"
    then have "idx ! k \<in> set idx"
      by simp
    then show "idx ! k < m \<and> is_inequality (tags ! (idx ! k))"
      using assms(2) by (simp add: idx_def inequality_rows_def)
  qed
  have count: "length idx = length (filter (\<lambda>t. t = ''<='') tags)
                     + length (filter (\<lambda>t. t = ''>='') tags)"
    unfolding idx_def by (rule inequality_rows_count)
  have slack: "\<And>k r. k < length idx \<Longrightarrow> r < m \<Longrightarrow>
      slack_of m r (tags ! r) ! (idx ! k)
        = (if r = idx ! k then (if tags ! r = ''<='' then 1 else - 1) else 0)"
    using idx by (auto simp: slack_of_nth is_inequality_def)
  have 1: "length (c1 @ replicate (length idx) 0) = n + length (filter (\<lambda>t. t = ''<='') tags)
                     + length (filter (\<lambda>t. t = ''>='') tags)"
    using c1(1) count by simp
  have 2: "\<forall>r<m. length (map (\<lambda>r. A ! r @ map (\<lambda>i. slack_of m r (tags ! r) ! i) idx) [0..<m] ! r)
      = length (c1 @ replicate (length idx) 0)"
    using assms(3) c1(1) by simp
  have 3: "\<forall>j<n. (c1 @ replicate (length idx) 0) ! j = (if mx then - (c ! j) else c ! j)"
    using c1 by (simp add: nth_append)
  have 4: "\<forall>r<m. \<forall>j<n.
      map (\<lambda>r. A ! r @ map (\<lambda>i. slack_of m r (tags ! r) ! i) idx) [0..<m] ! r ! j = A ! r ! j"
    using assms(3) by (simp add: nth_append)
  have 5: "\<forall>k<length idx. (c1 @ replicate (length idx) 0) ! (n + k) = 0"
    using c1(1) by (simp add: nth_append)
  have 6: "\<forall>k<length idx. \<forall>r<m.
      map (\<lambda>r. A ! r @ map (\<lambda>i. slack_of m r (tags ! r) ! i) idx) [0..<m] ! r ! (n + k)
        = (if r = idx ! k then (if tags ! r = ''<='' then 1 else - 1) else 0)"
    using assms(3) slack by (simp add: nth_append)
  show ?thesis
    unfolding conv prod.case idx_def [symmetric]
    using 1 2 3 4 5 6 by simp
qed

theorem convert_to_standard_form_columns_witness:
  "case convert_to_standard_form [3, - 1, 2] docstring_rows [4, 6, 2] docstring_tags False of
     (c', A', b') \<Rightarrow>
      b' = [4, 6, 2]
    \<and> length c' = 3 + length (filter (\<lambda>t. t = ''<='') docstring_tags)
                     + length (filter (\<lambda>t. t = ''>='') docstring_tags)
    \<and> length A' = 3
    \<and> (\<forall>r<3. length (A' ! r) = length c')
    \<and> (\<forall>j<3. c' ! j = (if False then - ([3, - 1, 2] ! j) else [3, - 1, 2] ! j))
    \<and> (\<forall>r<3. \<forall>j<3. A' ! r ! j = docstring_rows ! r ! j)
    \<and> (\<forall>k<length (inequality_rows docstring_tags).
          c' ! (3 + k) = 0
        \<and> (\<forall>r<3. A' ! r ! (3 + k)
              = (if r = inequality_rows docstring_tags ! k
                 then (if docstring_tags ! r = ''<='' then 1 else - 1) else 0)))"
proof -
  have 1: "length docstring_rows = 3"
    by (simp add: docstring_rows_def)
  have 2: "length docstring_tags = 3"
    by (simp add: docstring_tags_def)
  have 3: "\<forall>r<3. length (docstring_rows ! r) = 3"
    by (simp add: docstring_rows_def less_Suc_eq numeral_3_eq_3)
  have 4: "length [3, - 1, 2 :: rat] = 3"
    by simp
  show ?thesis
    by (rule convert_to_standard_form_columns [OF 1 2 3 4])
qed

section \<open>The analyzer keeps the shape\<close>



lemma infeasible_unchanged:
  "check_feasibility qr A b tol = Inr False \<Longrightarrow>
   check_and_fix_rank qr c A b tol = Inr (False, c, A, b)"
  by (simp add: check_and_fix_rank_def)

lemma standardize_equalities:
  assumes "\<forall>r<length A0. length (A0 ! r) = n" and "length c0 = n"
  shows "standardize c0 A0 b0 = (c0, A0, b0)"
proof -
  have tags: "inequality_rows (replicate (length A0) ''='') = []"
    by (simp add: inequality_rows_def is_inequality_def)
  have "convert_to_standard_form c0 A0 b0 (replicate (length A0) ''='') False
     = ((if False then map uminus c0 else c0)
          @ replicate (length (inequality_rows (replicate (length A0) ''=''))) 0,
        map (\<lambda>r. A0 ! r @ map (\<lambda>i. slack_of (length A0) r (replicate (length A0) ''='' ! r) ! i)
               (inequality_rows (replicate (length A0) ''=''))) [0..<length A0],
        b0)"
    by (rule converted_rows [OF refl _ assms]) simp
  also have "\<dots> = (c0, A0, b0)"
    by (simp add: tags map_nth)
  finally show ?thesis
    by (simp add: standardize_def)
qed

section \<open>The solution vector\<close>








section \<open>The branches of one iteration\<close>













section \<open>The pipeline\<close>


lemma pipeline_unfold:
  assumes "standardize c0 A0 b0 = (c, A_rows, b)" and "A_rows \<noteq> []"
  shows "solve_linear_program qr c0 A0 b0
    = (case check_and_fix_rank qr c \<lparr>ncols = length (hd A_rows), rows = A_rows\<rparr> b
                  tol_default of
             Inl e \<Rightarrow> Some (Inl e)
           | Inr (is_feasible, c1, A1, b1) \<Rightarrow>
               if \<not> is_feasible then Some (Inr Stop_Infeasible)
               else
                 (case initialize_tableau c1 A1 b1 M_pipeline of
                    Inl e \<Rightarrow> Some (Inl e)
                  | Inr tableau_big_m \<Rightarrow>
                      (case solve_simplex tableau_big_m of
                         None \<Rightarrow> None
                       | Some (Inl e) \<Rightarrow> Some (Inl e)
                       | Some (Inr r) \<Rightarrow> Some (report r))))"
  using assms by (simp add: solve_linear_program_def)









lemma unit_standardize: "standardize [10] [[1]] [1] = ([10], [[1]], [1])"
  by (rule standardize_equalities [where n = 1]) simp_all


lemma unit_built:
  "initialize_tableau [10] unit_matrix [1] M_pipeline
     = Inr [[- 999990, 0, - 1000000], [1, 1, 1]]"
  by code_simp

lemma unit_step1:
  "simplex_iteration 1 [[- 999990, 0, - 1000000], [1, 1, 1]] [1]
     = Continue [[0, 999990, - 10], [1, 1, 1]] [0]"
  by code_simp

lemma unit_step2:
  "simplex_iteration 1 [[0, 999990, - 10], [1, 1, 1]] [0]
     = Return ([[0, 999990, - 10], [1, 1, 1]], Optimal, Some [0], Some [1])"
  by code_simp

lemma unit_solved:
  "solve_simplex [[- 999990, 0, - 1000000], [1, 1, 1]]
     = Some (Inr ([[0, 999990, - 10], [1, 1, 1]], Optimal, Some [0], Some [1]))"
proof -
  have "num_original_vars [[- 999990, 0, - 1000000], [1, 1, 1]] = 1"
    by (simp add: num_original_vars_def)
  moreover have "initial_basis [[- 999990, 0, - 1000000], [1, 1, 1]] = [1]"
    by code_simp
  ultimately show ?thesis
    by (simp add: solve_simplex_def loop_continue [OF unit_step1] loop_return [OF unit_step2])
qed


















text \<open>
  C4. When the column-space test of \<open>check_feasibility\<close> finds the residual above the
  tolerance, \<open>check_and_fix_rank\<close> returns \<open>False\<close> with \<open>c\<close>, \<open>A\<close> and \<open>b\<close> as they
  were given, and the pipeline returns its infeasible verdict at once: the result does
  not depend on what the tableau builder or the solver would do on this input, not even
  on whether the solver's loop would end.
\<close>

theorem infeasible_stops_pipeline:
  assumes "check_feasibility qr A b tol = Inr False"
  shows "check_and_fix_rank qr c A b tol = Inr (False, c, A, b)
    \<and> (\<forall>c0 A0 b0. standardize c0 A0 b0 = (c, rows A, b) \<and> rows A \<noteq> []
           \<and> ncols A = length (hd (rows A)) \<and> tol = tol_default
         \<longrightarrow> solve_linear_program qr c0 A0 b0 = Some (Inr Stop_Infeasible))"
proof (intro conjI allI impI)
  show unchanged: "check_and_fix_rank qr c A b tol = Inr (False, c, A, b)"
    using assms by (rule infeasible_unchanged)
  fix c0 A0 b0
  assume h: "standardize c0 A0 b0 = (c, rows A, b) \<and> rows A \<noteq> []
           \<and> ncols A = length (hd (rows A)) \<and> tol = tol_default"
  then have A: "\<lparr>ncols = length (hd (rows A)), rows = rows A\<rparr> = A"
    by simp
  from h have std: "standardize c0 A0 b0 = (c, rows A, b)" and ne: "rows A \<noteq> []"
    and tol: "tol = tol_default"
    by simp_all
  show "solve_linear_program qr c0 A0 b0 = Some (Inr Stop_Infeasible)"
    unfolding pipeline_unfold [OF std ne] A unchanged [unfolded tol] by simp
qed

lemma parallel_infeasible:
  "check_feasibility qr_3_4 parallel_matrix [1, 2] tol_default = Inr False"
  by code_simp

lemma parallel_standardize:
  "standardize [1, 1] [[3, 3], [4, 4]] [1, 2] = ([1, 1], rows parallel_matrix, [1, 2])"
  unfolding parallel_matrix_def matrix.simps
  by (rule standardize_equalities [where n = 2]) (simp_all add: less_Suc_eq numeral_2_eq_2)

theorem infeasible_stops_pipeline_witness:
  "check_and_fix_rank qr_3_4 [1, 1] parallel_matrix [1, 2] tol_default
     = Inr (False, [1, 1], parallel_matrix, [1, 2])
   \<and> solve_linear_program qr_3_4 [1, 1] [[3, 3], [4, 4]] [1, 2] = Some (Inr Stop_Infeasible)"
proof -
  have "rows parallel_matrix \<noteq> []"
    and "ncols parallel_matrix = length (hd (rows parallel_matrix))"
    by (simp_all add: parallel_matrix_def)
  with infeasible_stops_pipeline [OF parallel_infeasible, of "[1, 1]"] parallel_standardize
  show ?thesis
    by blast
qed

section \<open>Bland's rule\<close>

lemma eps_pos: "0 < eps"
  by (simp add: eps_def)

lemma ratio_step_skip:
  "\<not> c ! i > eps \<Longrightarrow> ratio_step c r bv st i = st"
  by (simp add: ratio_step_def)

lemma ratio_step_first:
  "c ! i > eps \<Longrightarrow> ratio_step c r bv ratio_init i = selected_state c r bv i"
  by (simp add: ratio_step_def ratio_init_def ratio_smaller_def selected_state_def ratio_at_def)

lemma ratio_step_next:
  "c ! i > eps \<Longrightarrow>
   ratio_step c r bv (selected_state c r bv k) i
     = (if ratio_at c r i < ratio_at c r k - eps
           \<or> (\<bar>ratio_at c r i - ratio_at c r k\<bar> < eps \<and> bv ! i < bv ! k)
        then selected_state c r bv i else selected_state c r bv k)"
  by (simp add: ratio_step_def ratio_smaller_def ratio_tied_def var_smaller_def
      selected_state_def ratio_at_def Let_def)

lemma separated_less:
  "separated c r \<Longrightarrow> candidate c i \<Longrightarrow> candidate c k \<Longrightarrow>
   (ratio_at c r i < ratio_at c r k - eps) = (ratio_at c r i < ratio_at c r k)"
  using eps_pos by (auto simp: separated_def)

lemma separated_tie:
  assumes "separated c r" and "candidate c i" and "candidate c k"
  shows "(\<bar>ratio_at c r i - ratio_at c r k\<bar> < eps) = (ratio_at c r i = ratio_at c r k)"
proof
  assume tie: "\<bar>ratio_at c r i - ratio_at c r k\<bar> < eps"
  show "ratio_at c r i = ratio_at c r k"
  proof (rule ccontr)
    assume "ratio_at c r i \<noteq> ratio_at c r k"
    then consider "ratio_at c r i < ratio_at c r k" | "ratio_at c r k < ratio_at c r i"
      by linarith
    then show False
    proof cases
      case 1
      with assms have "ratio_at c r i < ratio_at c r k - eps"
        by (auto simp: separated_def)
      with tie show False by linarith
    next
      case 2
      with assms have "ratio_at c r k < ratio_at c r i - eps"
        by (auto simp: separated_def)
      with tie show False by linarith
    qed
  qed
next
  assume "ratio_at c r i = ratio_at c r k"
  then show "\<bar>ratio_at c r i - ratio_at c r k\<bar> < eps"
    using eps_pos by simp
qed

lemma ratio_prefix:
  assumes "p \<le> length c"
  shows "(if \<exists>i<p. candidate c i
          then \<exists>i<p. candidate c i
                 \<and> foldl (ratio_step c r bv) ratio_init [0..<p] = selected_state c r bv i
                 \<and> (separated c r \<longrightarrow> best_so_far c r bv p i)
          else foldl (ratio_step c r bv) ratio_init [0..<p] = ratio_init)"
  using assms
proof (induction p)
  case 0
  then show ?case by simp
next
  case (Suc p)
  then have p: "p < length c" and IH: "(if \<exists>i<p. candidate c i
          then \<exists>i<p. candidate c i
                 \<and> foldl (ratio_step c r bv) ratio_init [0..<p] = selected_state c r bv i
                 \<and> (separated c r \<longrightarrow> best_so_far c r bv p i)
          else foldl (ratio_step c r bv) ratio_init [0..<p] = ratio_init)"
    by simp_all
  have fold: "foldl (ratio_step c r bv) ratio_init [0..<Suc p]
      = ratio_step c r bv (foldl (ratio_step c r bv) ratio_init [0..<p]) p"
    by simp
  show ?case
  proof (cases "candidate c p")
    case False
    then have skip: "\<not> c ! p > eps"
      using p by (simp add: candidate_def)
    have same: "(\<exists>i<Suc p. candidate c i) = (\<exists>i<p. candidate c i)"
      using False by (auto simp: less_Suc_eq)
    have best: "\<And>i. best_so_far c r bv (Suc p) i = best_so_far c r bv p i"
      using False by (auto simp: best_so_far_def less_Suc_eq)
    show ?thesis
    proof (cases "\<exists>i<p. candidate c i")
      case True
      with IH obtain k where "k < p" "candidate c k"
        "foldl (ratio_step c r bv) ratio_init [0..<p] = selected_state c r bv k"
        "separated c r \<longrightarrow> best_so_far c r bv p k"
        by auto
      then have "k < Suc p \<and> candidate c k
          \<and> ratio_step c r bv (foldl (ratio_step c r bv) ratio_init [0..<p]) p
              = selected_state c r bv k
          \<and> (separated c r \<longrightarrow> best_so_far c r bv (Suc p) k)"
        by (simp add: ratio_step_skip [OF skip] best)
      then show ?thesis
        unfolding fold same using True by (simp only: if_True) blast
    next
      case False
      with IH show ?thesis
        unfolding fold same by (auto simp: ratio_step_skip [OF skip])
    qed
  next
    case True
    then have cp: "c ! p > eps"
      by (simp add: candidate_def)
    have ex: "\<exists>i<Suc p. candidate c i"
      using True by auto
    show ?thesis
    proof (cases "\<exists>i<p. candidate c i")
      case False
      with IH have init: "foldl (ratio_step c r bv) ratio_init [0..<p] = ratio_init"
        by simp
      have "best_so_far c r bv (Suc p) p"
        using False by (auto simp: best_so_far_def less_Suc_eq)
      with True show ?thesis
        unfolding fold init ratio_step_first [OF cp] using ex by auto
    next
      case some: True
      with IH obtain k where k: "k < p" "candidate c k"
        and st: "foldl (ratio_step c r bv) ratio_init [0..<p] = selected_state c r bv k"
        and best: "separated c r \<longrightarrow> best_so_far c r bv p k"
        by auto
      let ?upd = "ratio_at c r p < ratio_at c r k - eps
           \<or> (\<bar>ratio_at c r p - ratio_at c r k\<bar> < eps \<and> bv ! p < bv ! k)"
      show ?thesis
      proof (cases ?upd)
        case upd: True
        have "separated c r \<longrightarrow> best_so_far c r bv (Suc p) p"
        proof
          assume sep: "separated c r"
          with best have b: "best_so_far c r bv p k"
            by simp
          from upd separated_less [OF sep True k(2)] separated_tie [OF sep True k(2)]
          have "ratio_at c r p < ratio_at c r k
            \<or> (ratio_at c r p = ratio_at c r k \<and> bv ! p < bv ! k)"
            by simp
          with b show "best_so_far c r bv (Suc p) p"
            by (fastforce simp: best_so_far_def less_Suc_eq)
        qed
        with True show ?thesis
          unfolding fold st ratio_step_next [OF cp] using upd by auto
      next
        case keep: False
        have "separated c r \<longrightarrow> best_so_far c r bv (Suc p) k"
        proof
          assume sep: "separated c r"
          with best have b: "best_so_far c r bv p k"
            by simp
          from keep separated_less [OF sep True k(2)] separated_tie [OF sep True k(2)]
          have "\<not> ratio_at c r p < ratio_at c r k"
            and "ratio_at c r p = ratio_at c r k \<longrightarrow> \<not> bv ! p < bv ! k"
            by simp_all
          with b show "best_so_far c r bv (Suc p) k"
            by (fastforce simp: best_so_far_def less_Suc_eq)
        qed
        with k show ?thesis
          unfolding fold st ratio_step_next [OF cp] using keep ex
          by (auto simp: less_Suc_eq)
      qed
    qed
  qed
qed


lemma ratio_loop_sentinel:
  assumes "\<not> (\<exists>i. candidate c i)"
  shows "ratio_loop c r bv = ratio_init"
proof -
  from assms have "\<not> (\<exists>i<length c. candidate c i)"
    by simp
  with ratio_prefix [OF order_refl, of c r bv] show ?thesis
    unfolding ratio_loop_def by simp
qed

















section \<open>The basis across pivots\<close>



















lemma loop_pivots:
  "pivots k nov t bv = Some (t', bv') \<Longrightarrow> simplex_loop nov t bv = simplex_loop nov t' bv'"
proof (induction k arbitrary: t bv)
  case 0
  then show ?case by simp
next
  case (Suc k)
  from Suc.prems obtain t1 bv1 where it: "simplex_iteration nov t bv = Continue t1 bv1"
    and rest: "pivots k nov t1 bv1 = Some (t', bv')"
    by (cases "simplex_iteration nov t bv") simp_all
  from Suc.IH [OF rest] show ?case
    by (simp add: loop_continue [OF it])
qed











lemma pair_entering: "hd (negative_indices pair_mid) = 1"
  by code_simp

















section \<open>Scaling a row\<close>

lemma sum_list_change_one:
  fixes f g :: "nat \<Rightarrow> rat"
  assumes "i < m" and "\<And>r. r < m \<Longrightarrow> r \<noteq> i \<Longrightarrow> g r = f r"
  shows "sum_list (map g [0..<m]) = sum_list (map f [0..<m]) + (g i - f i)"
proof -
  have fin: "finite {0..<m}" and mem: "i \<in> {0..<m}"
    using assms(1) by simp_all
  have rest: "sum g ({0..<m} - {i}) = sum f ({0..<m} - {i})"
    by (rule sum.cong) (simp_all add: assms(2))
  have "sum_list (map g [0..<m]) = sum g {0..<m}"
    by (simp add: interv_sum_list_conv_sum_set_nat)
  also have "\<dots> = g i + sum g ({0..<m} - {i})"
    using fin mem by (rule sum.remove)
  also have "\<dots> = g i + sum f ({0..<m} - {i})"
    by (simp only: rest)
  also have "sum f ({0..<m} - {i}) = sum f {0..<m} - f i"
    using sum.remove [OF fin mem, of f] by simp
  also have "sum f {0..<m} = sum_list (map f [0..<m])"
    by (simp add: interv_sum_list_conv_sum_set_nat)
  finally show ?thesis
    by simp
qed

lemma row_sign_scaled:
  "0 < k \<Longrightarrow> row_sign (k * bi) (k * x) = k * row_sign bi x"
  by (simp add: row_sign_def mult_less_0_iff not_less [symmetric] less_imp_le)

text \<open>
  C7, as the code has it. Multiplying row \<open>i\<close> of \<open>(A, b)\<close> by \<open>k > 0\<close> changes the
  tableau the solver starts from. Constraint row \<open>i\<close> has its structural entries and its
  right-hand side multiplied by \<open>k\<close> and its artificial entries as before; the other
  constraint rows are the same; and the objective row loses \<open>(k - 1) M\<close> times
  constraint row \<open>i\<close> of the unscaled tableau in its structural entries and in its last
  entry, the artificial entries staying 0. The penalty \<open>M\<close> and the tolerances of the
  analyzer and the solver are not scaled with the row.
\<close>

theorem scaled_row_tableau:
  assumes shape: "well_shaped A" and c: "length c = ncols A"
    and b: "length b = length (rows A)" and i: "i < length (rows A)" and k: "0 < k"
    and n: "n = ncols A" and m: "m = length (rows A)"
  shows "\<exists>T T'. initialize_tableau c A b M = Inr T
    \<and> initialize_tableau c (A\<lparr>rows := (rows A)[i := map ((*) k) (rows A ! i)]\<rparr>)
          (b[i := k * b ! i]) M = Inr T'
    \<and> length T = m + 1 \<and> length T' = m + 1
    \<and> (\<forall>j<n. T' ! (i + 1) ! j = k * T ! (i + 1) ! j)
    \<and> T' ! (i + 1) ! (n + m) = k * T ! (i + 1) ! (n + m)
    \<and> (\<forall>a<m. T' ! (i + 1) ! (n + a) = T ! (i + 1) ! (n + a))
    \<and> (\<forall>r<m. r \<noteq> i \<longrightarrow> T' ! (r + 1) = T ! (r + 1))
    \<and> (\<forall>j<n. T' ! 0 ! j = T ! 0 ! j - (k - 1) * M * T ! (i + 1) ! j)
    \<and> (\<forall>a<m. T' ! 0 ! (n + a) = T ! 0 ! (n + a))
    \<and> T' ! 0 ! (n + m) = T ! 0 ! (n + m) - (k - 1) * M * T ! (i + 1) ! (n + m)"
proof -
  define R where "R = rows A"
  define R' where "R' = R[i := map ((*) k) (R ! i)]"
  define b' where "b' = b[i := k * b ! i]"
  define T where "T = objective_row n m c R b M
      # map (\<lambda>r. constraint_row n m (R ! r) (b ! r) r) [0..<m]"
  define T' where "T' = objective_row n m c R' b' M
      # map (\<lambda>r. constraint_row n m (R' ! r) (b' ! r) r) [0..<m]"
  have im: "i < m"
    using i m by simp
  have len: "\<forall>r<m. length (R ! r) = n"
    using shape m n by (simp add: well_shaped_def list_all_length R_def)
  have len': "\<forall>r<m. length (R' ! r) = n"
    using len m i by (auto simp: R'_def R_def nth_list_update)
  have cn: "length c = n"
    using c n by simp
  have built: "initialize_tableau c A b M = Inr T"
    using m n c b by (simp add: initialize_tableau_def T_def Let_def R_def)
  have built': "initialize_tableau c (A\<lparr>rows := (rows A)[i := map ((*) k) (rows A ! i)]\<rparr>)
          (b[i := k * b ! i]) M = Inr T'"
    using m n c b by (simp add: initialize_tableau_def T'_def Let_def R_def R'_def b'_def)
  have row: "\<And>r. r < m \<Longrightarrow> T ! Suc r = constraint_row n m (R ! r) (b ! r) r"
    by (simp add: T_def)
  have row': "\<And>r. r < m \<Longrightarrow> T' ! Suc r = constraint_row n m (R' ! r) (b' ! r) r"
    by (simp add: T'_def)
  have obj0: "T ! 0 = objective_row n m c R b M" and obj0': "T' ! 0 = objective_row n m c R' b' M"
    by (simp_all add: T_def T'_def)
  note obj = objective_row_props [OF cn len, where b = b and M = M]
  note obj' = objective_row_props [OF cn len', where b = b' and M = M]
  have Ri: "R' ! i = map ((*) k) (R ! i)" and bi: "b' ! i = k * b ! i"
    using im m b by (simp_all add: R'_def b'_def R_def)
  have other: "\<And>r. r < m \<Longrightarrow> r \<noteq> i \<Longrightarrow> R' ! r = R ! r \<and> b' ! r = b ! r"
    by (simp add: R'_def b'_def)
  have li: "length (R ! i) = n" and li': "length (R' ! i) = n"
    using len len' im by simp_all
  have 1: "\<forall>j<n. T' ! Suc i ! j = k * T ! Suc i ! j"
    using li li' k
    by (simp add: row [OF im] row' [OF im] constraint_row_structural Ri bi row_sign_scaled)
  have 2: "T' ! Suc i ! (n + m) = k * T ! Suc i ! (n + m)"
    using li li' k
    by (simp add: row [OF im] row' [OF im] constraint_row_rhs bi abs_mult)
  have 3: "\<forall>a<m. T' ! Suc i ! (n + a) = T ! Suc i ! (n + a)"
    using li li' im
    by (simp add: row [OF im] row' [OF im] constraint_row_artificial)
  have 4: "\<forall>r<m. r \<noteq> i \<longrightarrow> T' ! Suc r = T ! Suc r"
    using other by (simp add: row row')
  have 5: "\<forall>j<n. T' ! 0 ! j = T ! 0 ! j - (k - 1) * M * T ! Suc i ! j"
  proof (intro allI impI)
    fix j assume j: "j < n"
    let ?f = "\<lambda>r. row_sign (b ! r) (R ! r ! j)"
    let ?g = "\<lambda>r. row_sign (b' ! r) (R' ! r ! j)"
    have gi: "?g i = k * ?f i"
      using j li k by (simp add: Ri bi row_sign_scaled)
    have "sum_list (map ?g [0..<m]) = sum_list (map ?f [0..<m]) + (?g i - ?f i)"
      using im by (rule sum_list_change_one) (simp add: other)
    then have s: "sum_list (map ?g [0..<m]) = sum_list (map ?f [0..<m]) + (k - 1) * ?f i"
      by (simp add: gi algebra_simps)
    have "T ! Suc i ! j = ?f i"
      using li j by (simp add: row [OF im] constraint_row_structural)
    then show "T' ! 0 ! j = T ! 0 ! j - (k - 1) * M * T ! Suc i ! j"
      unfolding obj0 obj0' obj(2) [OF j] obj'(2) [OF j] s by (simp add: algebra_simps)
  qed
  have 6: "\<forall>a<m. T' ! 0 ! (n + a) = T ! 0 ! (n + a)"
    by (simp add: obj0 obj0' obj(3) obj'(3))
  have 7: "T' ! 0 ! (n + m) = T ! 0 ! (n + m) - (k - 1) * M * T ! Suc i ! (n + m)"
  proof -
    let ?f = "\<lambda>r. \<bar>b ! r\<bar>"
    let ?g = "\<lambda>r. \<bar>b' ! r\<bar>"
    have gi: "?g i = k * ?f i"
      using k by (simp add: bi abs_mult)
    have "sum_list (map ?g [0..<m]) = sum_list (map ?f [0..<m]) + (?g i - ?f i)"
      using im by (rule sum_list_change_one) (simp add: other)
    then have s: "sum_list (map ?g [0..<m]) = sum_list (map ?f [0..<m]) + (k - 1) * ?f i"
      by (simp add: gi algebra_simps)
    have "T ! Suc i ! (n + m) = ?f i"
      using li by (simp add: row [OF im] constraint_row_rhs)
    then show ?thesis
      unfolding obj0 obj0' obj(4) obj'(4) s by (simp add: algebra_simps)
  qed
  have "length T = m + 1" "length T' = m + 1"
    by (simp_all add: T_def T'_def)
  with built built' 1 2 3 4 5 6 7 show ?thesis
    by (intro exI [of _ T] exI [of _ T']) simp
qed

theorem scaled_row_tableau_witness:
  "\<exists>T T'. initialize_tableau [1, 1] pair_matrix [1, 1] M_default = Inr T
    \<and> initialize_tableau [1, 1]
          (pair_matrix\<lparr>rows := (rows pair_matrix)[1 := map ((*) 3) (rows pair_matrix ! 1)]\<rparr>)
          ([1, 1][1 := 3 * [1, 1] ! 1]) M_default = Inr T'
    \<and> length T = 2 + 1 \<and> length T' = 2 + 1
    \<and> (\<forall>j<2. T' ! (1 + 1) ! j = 3 * T ! (1 + 1) ! j)
    \<and> T' ! (1 + 1) ! (2 + 2) = 3 * T ! (1 + 1) ! (2 + 2)
    \<and> (\<forall>a<2. T' ! (1 + 1) ! (2 + a) = T ! (1 + 1) ! (2 + a))
    \<and> (\<forall>r<2. r \<noteq> 1 \<longrightarrow> T' ! (r + 1) = T ! (r + 1))
    \<and> (\<forall>j<2. T' ! 0 ! j = T ! 0 ! j - (3 - 1) * M_default * T ! (1 + 1) ! j)
    \<and> (\<forall>a<2. T' ! 0 ! (2 + a) = T ! 0 ! (2 + a))
    \<and> T' ! 0 ! (2 + 2) = T ! 0 ! (2 + 2) - (3 - 1) * M_default * T ! (1 + 1) ! (2 + 2)"
proof -
  have 1: "well_shaped pair_matrix" "length [1, 1 :: rat] = ncols pair_matrix"
    "length [1, 1 :: rat] = length (rows pair_matrix)" "1 < length (rows pair_matrix)"
    "0 < (3 :: rat)" "2 = ncols pair_matrix" "2 = length (rows pair_matrix)"
    by (simp_all add: pair_matrix_def well_shaped_def)
  show ?thesis
    by (rule scaled_row_tableau [OF 1])
qed

text \<open>
  C7, as the specification states it, fails in both halves. With the second row
  multiplied by 35/16 the residual of the column-space test grows from 0.9e-8 to more
  than 1e-8, and the analyzer's verdict turns from feasible to infeasible. With the row
  of \<open>x = 1\<close> multiplied by 1e-6 the penalty \<open>M = 1e6\<close> no longer outweighs the cost 10:
  both runs end optimal, with objective value 10 before and 1 after.
\<close>

text \<open>
  \<open>qr_column\<close> factorises the two one-column matrices: \<open>Q R\<close> gives back the rows, and
  the column of \<open>Q\<close> has norm 1.
\<close>

lemma qr_column_exact:
  "qr_column column_matrix = ([[- (3 / 5)], [- (4 / 5)]], [[- 5]])"
  "qr_column column_scaled = ([[- (12 / 37)], [- (35 / 37)]], [[- (37 / 4)]])"
  "map (\<lambda>q. map (\<lambda>r. q ! 0 * r) [- 5]) [[- (3 / 5)], [- (4 / 5 :: rat)]] = rows column_matrix"
  "map (\<lambda>q. map (\<lambda>r. q ! 0 * r) [- (37 / 4)]) [[- (12 / 37)], [- (35 / 37 :: rat)]]
     = rows column_scaled"
  "dot [- (3 / 5), - (4 / 5)] [- (3 / 5), - (4 / 5)] = 1"
  "dot [- (12 / 37), - (35 / 37)] [- (12 / 37), - (35 / 37)] = 1"
  by code_simp+

lemma column_standardize:
  "standardize [1] [[3], [4]] column_rhs = ([1], rows column_matrix, column_rhs)"
  unfolding column_matrix_def matrix.simps
  by (rule standardize_equalities [where n = 1]) (simp_all add: less_Suc_eq numeral_2_eq_2)

lemma column_scaled_standardize:
  "standardize [1] [[3], [35 / 4]] column_rhs_scaled
     = ([1], rows column_scaled, column_rhs_scaled)"
  unfolding column_scaled_def matrix.simps
  by (rule standardize_equalities [where n = 1]) (simp_all add: less_Suc_eq numeral_2_eq_2)

lemma column_fixed:
  "check_and_fix_rank qr_column [1] column_matrix column_rhs tol_default
     = Inr (True, [1], column_reduced, [3])"
  by code_simp

lemma column_scaled_fixed:
  "check_and_fix_rank qr_column [1] column_scaled column_rhs_scaled tol_default
     = Inr (False, [1], column_scaled, column_rhs_scaled)"
  by code_simp

lemma column_built:
  "initialize_tableau [1] column_reduced [3] M_pipeline
     = Inr [[- 2999999, 0, - 3000000], [3, 1, 3]]"
  by code_simp

lemma column_step1:
  "simplex_iteration 1 [[- 2999999, 0, - 3000000], [3, 1, 3]] [1]
     = Continue [[0, 2999999 / 3, - 1], [1, 1 / 3, 1]] [0]"
  by code_simp

lemma column_step2:
  "simplex_iteration 1 [[0, 2999999 / 3, - 1], [1, 1 / 3, 1]] [0]
     = Return ([[0, 2999999 / 3, - 1], [1, 1 / 3, 1]], Optimal, Some [0], Some [1])"
  by code_simp

lemma column_solved:
  "solve_simplex [[- 2999999, 0, - 3000000], [3, 1, 3]]
     = Some (Inr ([[0, 2999999 / 3, - 1], [1, 1 / 3, 1]], Optimal, Some [0], Some [1]))"
proof -
  have "num_original_vars [[- 2999999, 0, - 3000000], [3, 1, 3]] = 1"
    by (simp add: num_original_vars_def)
  moreover have "initial_basis [[- 2999999, 0, - 3000000], [3, 1, 3]] = [1]"
    by code_simp
  ultimately show ?thesis
    by (simp add: solve_simplex_def loop_continue [OF column_step1]
        loop_return [OF column_step2])
qed

lemma column_pipeline:
  "solve_linear_program qr_column [1] [[3], [4]] column_rhs = Some (Inr (To_Verifier 1 [1]))"
proof -
  have ne: "rows column_matrix \<noteq> []"
    by (simp add: column_matrix_def)
  have m: "\<lparr>ncols = length (hd (rows column_matrix)), rows = rows column_matrix\<rparr>
      = column_matrix"
    by (simp add: column_matrix_def)
  show ?thesis
    unfolding pipeline_unfold [OF column_standardize ne] m column_fixed
    by (simp add: column_built column_solved report_def)
qed

lemma column_scaled_pipeline:
  "solve_linear_program qr_column [1] [[3], [35 / 4]] column_rhs_scaled
     = Some (Inr Stop_Infeasible)"
proof -
  have ne: "rows column_scaled \<noteq> []"
    by (simp add: column_scaled_def)
  have m: "\<lparr>ncols = length (hd (rows column_scaled)), rows = rows column_scaled\<rparr>
      = column_scaled"
    by (simp add: column_scaled_def)
  show ?thesis
    unfolding pipeline_unfold [OF column_scaled_standardize ne] m column_scaled_fixed
    by simp
qed

lemma one_standardize: "standardize [10] [[1 / 1000000]] [1 / 1000000]
    = ([10], rows unit_scaled, [1 / 1000000])"
  unfolding unit_scaled_def matrix.simps
  by (rule standardize_equalities [where n = 1]) simp_all

lemma one_fixed:
  "check_and_fix_rank qr_column [10] unit_matrix [1] tol_default
     = Inr (True, [10], unit_matrix, [1])"
  by code_simp

lemma one_scaled_fixed:
  "check_and_fix_rank qr_column [10] unit_scaled [1 / 1000000] tol_default
     = Inr (True, [10], unit_scaled, [1 / 1000000])"
  by code_simp

lemma one_scaled_built:
  "initialize_tableau [10] unit_scaled [1 / 1000000] M_pipeline
     = Inr [[9, 0, - 1], [1 / 1000000, 1, 1 / 1000000]]"
  by code_simp

lemma one_scaled_step:
  "simplex_iteration 1 [[9, 0, - 1], [1 / 1000000, 1, 1 / 1000000]] [1]
     = Return ([[9, 0, - 1], [1 / 1000000, 1, 1 / 1000000]], Optimal, Some [1], Some [0])"
  by code_simp

lemma one_scaled_solved:
  "solve_simplex [[9, 0, - 1], [1 / 1000000, 1, 1 / 1000000]]
     = Some (Inr ([[9, 0, - 1], [1 / 1000000, 1, 1 / 1000000]], Optimal, Some [1], Some [0]))"
proof -
  have "num_original_vars [[9, 0, - 1], [1 / 1000000, 1, 1 / 1000000]] = 1"
    by (simp add: num_original_vars_def)
  moreover have "initial_basis [[9, 0, - 1], [1 / 1000000, 1, 1 / 1000000]] = [1]"
    by code_simp
  ultimately show ?thesis
    by (simp add: solve_simplex_def loop_return [OF one_scaled_step])
qed

lemma one_pipeline:
  "solve_linear_program qr_column [10] [[1]] [1] = Some (Inr (To_Verifier 10 [1]))"
proof -
  have m: "\<lparr>ncols = length (hd [[1 :: rat]]), rows = [[1]]\<rparr> = unit_matrix"
    by (simp add: unit_matrix_def)
  show ?thesis
    unfolding pipeline_unfold [OF unit_standardize list.distinct(2)] m one_fixed
    by (simp add: unit_built unit_solved report_def)
qed

lemma one_scaled_pipeline:
  "solve_linear_program qr_column [10] [[1 / 1000000]] [1 / 1000000]
     = Some (Inr (To_Verifier 1 [0]))"
proof -
  have ne: "rows unit_scaled \<noteq> []"
    by (simp add: unit_scaled_def)
  have m: "\<lparr>ncols = length (hd (rows unit_scaled)), rows = rows unit_scaled\<rparr> = unit_scaled"
    by (simp add: unit_scaled_def)
  show ?thesis
    unfolding pipeline_unfold [OF one_standardize ne] m one_scaled_fixed
    by (simp add: one_scaled_built one_scaled_solved report_def)
qed

theorem scaling_changes_outcome:
  "[[3], [35 / 4]] = [[3], [4 :: rat]][1 := map ((*) (35 / 16)) ([[3], [4]] ! 1)]
   \<and> column_rhs_scaled = column_rhs[1 := 35 / 16 * column_rhs ! 1]
   \<and> solve_linear_program qr_column [1] [[3], [4]] column_rhs
       = Some (Inr (To_Verifier 1 [1]))
   \<and> solve_linear_program qr_column [1] [[3], [35 / 4]] column_rhs_scaled
       = Some (Inr Stop_Infeasible)
   \<and> solve_linear_program qr_column [10] [[1]] [1] = Some (Inr (To_Verifier 10 [1]))
   \<and> solve_linear_program qr_column [10] [[1 / 1000000]] [1 / 1000000]
       = Some (Inr (To_Verifier 1 [0]))"
proof (intro conjI)
  show "[[3], [35 / 4]] = [[3], [4 :: rat]][1 := map ((*) (35 / 16)) ([[3], [4]] ! 1)]"
    by simp
  show "column_rhs_scaled = column_rhs[1 := 35 / 16 * column_rhs ! 1]"
    by (simp add: column_rhs_def column_rhs_scaled_def)
qed (fact column_pipeline column_scaled_pipeline one_pipeline one_scaled_pipeline)+

end
